theory Spec2Isabelle
  imports Complex_Main
begin

section \<open>Flood fill on a raster buffer (flood-fill-test/page.tsx, floodFill)\<close>

text \<open>
  A colour is four JavaScript numbers. The elements of the buffer are the bytes of a
  \<^verbatim>\<open>Uint8ClampedArray\<close>: a read outside the array yields \<^verbatim>\<open>undefined\<close>
  (modelled by \<open>None\<close>), a write outside it is ignored, and a written number is
  clamped to the range 0..255. A colour read from the buffer therefore has optional
  channels, a fill colour given by the caller has plain integer channels.
\<close>

record 'v Color =
  c_r :: 'v
  c_g :: 'v
  c_b :: 'v
  c_a :: 'v

record ImageData =
  width :: int
  height :: int
  data :: "int list"

definition rd :: "int list \<Rightarrow> int \<Rightarrow> int option" where
  "rd d i = (if 0 \<le> i \<and> i < int (length d) then Some (d ! nat i) else None)"

definition clamp8 :: "int \<Rightarrow> int" where
  "clamp8 v = max 0 (min 255 v)"

definition wr :: "int list \<Rightarrow> int \<Rightarrow> int \<Rightarrow> int list" where
  "wr d i v = (if 0 \<le> i \<and> i < int (length d) then d[nat i := clamp8 v] else d)"

definition readColor :: "int list \<Rightarrow> int \<Rightarrow> int option Color" where
  "readColor d index =
     \<lparr>c_r = rd d index, c_g = rd d (index + 1), c_b = rd d (index + 2), c_a = rd d (index + 3)\<rparr>"

definition writeColor :: "int list \<Rightarrow> int \<Rightarrow> int Color \<Rightarrow> int list" where
  "writeColor d index fillColor =
     wr (wr (wr (wr d index (c_r fillColor)) (index + 1) (c_g fillColor))
        (index + 2) (c_b fillColor)) (index + 3) (c_a fillColor)"

text \<open>
  \<^verbatim>\<open>Math.pow(c1 - c2, 2)\<close> on one channel: arithmetic on \<^verbatim>\<open>undefined\<close> gives NaN,
  and every comparison with NaN is false.
\<close>

fun sq_diff :: "int option \<Rightarrow> int option \<Rightarrow> int option" where
  "sq_diff (Some u) (Some v) = Some ((u - v)\<^sup>2)"
| "sq_diff _ _ = None"

definition isSimilarColor :: "int option Color \<Rightarrow> int option Color \<Rightarrow> real \<Rightarrow> bool" where
  "isSimilarColor color1 color2 tolerance =
     (case sq_diff (c_r color1) (c_r color2) of
        None \<Rightarrow> False
      | Some dr \<Rightarrow>
          (case sq_diff (c_g color1) (c_g color2) of
             None \<Rightarrow> False
           | Some dg \<Rightarrow>
               (case sq_diff (c_b color1) (c_b color2) of
                  None \<Rightarrow> False
                | Some db \<Rightarrow> sqrt (real_of_int (dr + dg + db)) \<le> tolerance)))"

text \<open>The test \<^verbatim>\<open>c.r === fillColor.r && c.g === fillColor.g && c.b === fillColor.b\<close>.\<close>

definition sameRGB :: "int option Color \<Rightarrow> int Color \<Rightarrow> bool" where
  "sameRGB c fillColor =
     (c_r c = Some (c_r fillColor) \<and> c_g c = Some (c_g fillColor) \<and> c_b c = Some (c_b fillColor))"

text \<open>
  The loop \<^verbatim>\<open>while (stack.length > 0)\<close>. The head of the list is the top of the
  JavaScript array used as a stack, so the neighbour pushed last, \<open>(x, y - 1)\<close>, comes
  first. The result \<open>None\<close> stands for a loop that never ends.
\<close>

partial_function (option) floodLoop ::
  "int \<Rightarrow> int \<Rightarrow> int option Color \<Rightarrow> int Color \<Rightarrow> real \<Rightarrow>
   (int \<times> int) list \<Rightarrow> int list \<Rightarrow> nat \<Rightarrow> (int list \<times> nat) option" where
  "floodLoop w h startColor fillColor tolerance stack d processedPixels =
     (case stack of
        [] \<Rightarrow> Some (d, processedPixels)
      | (x, y) # rest \<Rightarrow>
          if x < 0 \<or> x \<ge> w \<or> y < 0 \<or> y \<ge> h
          then floodLoop w h startColor fillColor tolerance rest d processedPixels
          else if \<not> isSimilarColor (readColor d ((y * w + x) * 4)) startColor tolerance
          then floodLoop w h startColor fillColor tolerance rest d processedPixels
          else if sameRGB (readColor d ((y * w + x) * 4)) fillColor
          then floodLoop w h startColor fillColor tolerance rest d processedPixels
          else floodLoop w h startColor fillColor tolerance
                 ((x, y - 1) # (x, y + 1) # (x - 1, y) # (x + 1, y) # rest)
                 (writeColor d ((y * w + x) * 4) fillColor) (processedPixels + 1))"

text \<open>
  The parameter \<open>targetColor\<close> is part of the signature and is not read by the body.
\<close>

definition floodFill ::
  "ImageData \<Rightarrow> int \<Rightarrow> int \<Rightarrow> int Color \<Rightarrow> int Color \<Rightarrow> real \<Rightarrow> (ImageData \<times> nat) option" where
  "floodFill imageData startX startY targetColor fillColor tolerance =
     (let startIndex = (startY * width imageData + startX) * 4;
          startColor = readColor (data imageData) startIndex
      in if sameRGB startColor fillColor then Some (imageData, 0)
         else map_option (\<lambda>(d, n). (imageData\<lparr>data := d\<rparr>, n))
                (floodLoop (width imageData) (height imageData) startColor fillColor tolerance
                   [(startX, startY)] (data imageData) 0))"

definition inBounds :: "ImageData \<Rightarrow> int \<Rightarrow> int \<Rightarrow> bool" where
  "inBounds imageData x y = (0 \<le> x \<and> x < width imageData \<and> 0 \<le> y \<and> y < height imageData)"

text \<open>A colour whose channels are bytes, as \<^verbatim>\<open>hexToRgb\<close> produces them.\<close>

definition validColor :: "int Color \<Rightarrow> bool" where
  "validColor c =
     (0 \<le> c_r c \<and> c_r c \<le> 255 \<and> 0 \<le> c_g c \<and> c_g c \<le> 255 \<and>
      0 \<le> c_b c \<and> c_b c \<le> 255 \<and> 0 \<le> c_a c \<and> c_a c \<le> 255)"

subsection \<open>Reading and writing the buffer\<close>

lemma rd_wr: "rd (wr d i v) j = (if j = i \<and> rd d j \<noteq> None then Some (clamp8 v) else rd d j)"
  by (auto simp: rd_def wr_def nth_list_update)

lemma rd_writeColor:
  "rd (writeColor d i c) j =
     (if rd d j = None then None
      else if j = i then Some (clamp8 (c_r c))
      else if j = i + 1 then Some (clamp8 (c_g c))
      else if j = i + 2 then Some (clamp8 (c_b c))
      else if j = i + 3 then Some (clamp8 (c_a c))
      else rd d j)"
  by (simp add: writeColor_def rd_wr)

lemma clamp8_id: "0 \<le> v \<Longrightarrow> v \<le> 255 \<Longrightarrow> clamp8 v = v"
  by (simp add: clamp8_def)

lemma rd_writeColor_other:
  "j < i \<or> i + 3 < j \<Longrightarrow> rd (writeColor d i c) j = rd d j"
  by (erule disjE) (simp_all add: rd_writeColor)

lemma readColor_writeColor_other:
  assumes "j + 3 < i \<or> i + 3 < j"
  shows "readColor (writeColor d i c) j = readColor d j"
proof -
  have "rd (writeColor d i c) j = rd d j" "rd (writeColor d i c) (j + 1) = rd d (j + 1)"
    "rd (writeColor d i c) (j + 2) = rd d (j + 2)" "rd (writeColor d i c) (j + 3) = rd d (j + 3)"
    using assms by (intro rd_writeColor_other; linarith)+
  then show ?thesis by (simp add: readColor_def)
qed

lemma isSimilarColor_reads:
  "isSimilarColor c1 c2 t \<Longrightarrow> c_r c1 \<noteq> None \<and> c_g c1 \<noteq> None \<and> c_b c1 \<noteq> None"
  by (cases "c_r c1"; cases "c_g c1"; cases "c_b c1") (simp_all add: isSimilarColor_def split: option.splits)

lemma sameRGB_writeColor_same:
  assumes "validColor c" "c_r (readColor d i) \<noteq> None" "c_g (readColor d i) \<noteq> None" "c_b (readColor d i) \<noteq> None"
  shows "sameRGB (readColor (writeColor d i c) i) c"
  using assms
  by (simp add: sameRGB_def readColor_def rd_writeColor validColor_def clamp8_id)

lemma sameRGB_writeColor_keep:
  assumes "validColor c" "sameRGB (readColor d j) c" "i = j \<or> j + 3 < i \<or> i + 3 < j"
  shows "sameRGB (readColor (writeColor d i c) j) c"
proof (cases "i = j")
  case True
  have "sameRGB (readColor (writeColor d j c) j) c"
    using assms(1,2) by (intro sameRGB_writeColor_same) (auto simp: sameRGB_def)
  with True show ?thesis by simp
next
  case False
  with assms(3) have "j + 3 < i \<or> i + 3 < j" by simp
  then have "readColor (writeColor d i c) j = readColor d j"
    by (rule readColor_writeColor_other)
  then show ?thesis using assms(2) by simp
qed

subsection \<open>The pixels still to be filled, and the loop rule\<close>

text \<open>
  The pixels inside the buffer whose red, green and blue bytes are not yet those of the
  fill colour. Every overwrite removes one of them: the measure of the loop.
\<close>

definition unfilled :: "int \<Rightarrow> int \<Rightarrow> int Color \<Rightarrow> int list \<Rightarrow> (int \<times> int) set" where
  "unfilled w h fc d =
     {(x, y). 0 \<le> x \<and> x < w \<and> 0 \<le> y \<and> y < h \<and> \<not> sameRGB (readColor d ((y * w + x) * 4)) fc}"

lemma finite_unfilled: "finite (unfilled w h fc d)"
proof (rule finite_subset)
  show "unfilled w h fc d \<subseteq> {0..<w} \<times> {0..<h}" by (auto simp: unfilled_def)
  show "finite ({0..<w} \<times> {0..<h})" by simp
qed

lemma index_same_or_apart:
  fixes a b :: int
  shows "a * 4 = b * 4 \<or> b * 4 + 3 < a * 4 \<or> a * 4 + 3 < b * 4"
  by arith

lemma unfilled_step:
  assumes valid: "validColor fc"
    and xy: "0 \<le> x" "x < w" "0 \<le> y" "y < h"
    and sim: "isSimilarColor (readColor d ((y * w + x) * 4)) sc tol"
    and ns: "\<not> sameRGB (readColor d ((y * w + x) * 4)) fc"
  shows "unfilled w h fc (writeColor d ((y * w + x) * 4) fc) \<subset> unfilled w h fc d"
proof -
  let ?i = "(y * w + x) * 4"
  let ?d' = "writeColor d ?i fc"
  have reads: "c_r (readColor d ?i) \<noteq> None" "c_g (readColor d ?i) \<noteq> None" "c_b (readColor d ?i) \<noteq> None"
    using isSimilarColor_reads[OF sim] by simp_all
  have now: "sameRGB (readColor ?d' ?i) fc"
    using valid reads by (rule sameRGB_writeColor_same)
  have keep: "sameRGB (readColor ?d' ((y' * w + x') * 4)) fc"
    if "0 \<le> x'" "x' < w" "sameRGB (readColor d ((y' * w + x') * 4)) fc" for x' y'
  proof -
    have "?i = (y' * w + x') * 4 \<or> (y' * w + x') * 4 + 3 < ?i \<or> ?i + 3 < (y' * w + x') * 4"
      by (rule index_same_or_apart)
    with valid that(3) show ?thesis by (rule sameRGB_writeColor_keep)
  qed
  have "unfilled w h fc ?d' \<subseteq> unfilled w h fc d"
    using keep by (auto simp: unfilled_def)
  moreover have "(x, y) \<in> unfilled w h fc d" using xy ns by (simp add: unfilled_def)
  moreover have "(x, y) \<notin> unfilled w h fc ?d'" using now by (simp add: unfilled_def)
  ultimately show ?thesis by blast
qed

lemma floodLoop_rule:
  assumes valid: "validColor fc"
    and pres: "\<And>d n x y. I d n \<Longrightarrow> 0 \<le> x \<Longrightarrow> x < w \<Longrightarrow> 0 \<le> y \<Longrightarrow> y < h \<Longrightarrow>
        isSimilarColor (readColor d ((y * w + x) * 4)) sc tol \<Longrightarrow>
        \<not> sameRGB (readColor d ((y * w + x) * 4)) fc \<Longrightarrow>
        I (writeColor d ((y * w + x) * 4) fc) (n + 1)"
    and init: "I d n"
  shows "\<exists>d' n'. floodLoop w h sc fc tol stack d n = Some (d', n') \<and> I d' n'"
  using init
proof (induction "card (unfilled w h fc d)" arbitrary: d n stack rule: less_induct)
  case less
  show ?case
  proof (induction stack)
    case Nil
    show ?case using less.prems by (subst floodLoop.simps) simp
  next
    case (Cons p rest)
    obtain x y where p: "p = (x, y)" by force
    let ?i = "(y * w + x) * 4"
    show ?case
    proof (cases "x < 0 \<or> x \<ge> w \<or> y < 0 \<or> y \<ge> h")
      case True
      then have "floodLoop w h sc fc tol (p # rest) d n = floodLoop w h sc fc tol rest d n"
        by (subst floodLoop.simps) (simp add: p)
      then show ?thesis using Cons.IH by simp
    next
      case inb: False
      show ?thesis
      proof (cases "isSimilarColor (readColor d ?i) sc tol \<and> \<not> sameRGB (readColor d ?i) fc")
        case False
        with inb have "floodLoop w h sc fc tol (p # rest) d n = floodLoop w h sc fc tol rest d n"
          by (subst floodLoop.simps) (auto simp: p)
        then show ?thesis using Cons.IH by simp
      next
        case True
        let ?d' = "writeColor d ?i fc"
        let ?st = "(x, y - 1) # (x, y + 1) # (x - 1, y) # (x + 1, y) # rest"
        have xy: "0 \<le> x" "x < w" "0 \<le> y" "y < h" using inb by simp_all
        have eq: "floodLoop w h sc fc tol (p # rest) d n = floodLoop w h sc fc tol ?st ?d' (n + 1)"
          using inb True by (subst floodLoop.simps) (simp add: p)
        have "unfilled w h fc ?d' \<subset> unfilled w h fc d"
          using valid xy True by (intro unfilled_step[where sc = sc and tol = tol]) simp_all
        then have lt: "card (unfilled w h fc ?d') < card (unfilled w h fc d)"
          by (intro psubset_card_mono finite_unfilled)
        have "I ?d' (n + 1)" using less.prems xy True by (intro pres) simp_all
        from less.hyps[OF lt this] show ?thesis using eq by simp
      qed
    qed
  qed
qed

lemma sqrt_le_iff_sq:
  assumes "0 \<le> x"
  shows "sqrt x \<le> t \<longleftrightarrow> 0 \<le> t \<and> x \<le> t * t"
proof
  assume a: "sqrt x \<le> t"
  have "0 \<le> sqrt x" using assms by simp
  with a have t: "0 \<le> t" by linarith
  have "x = sqrt x * sqrt x" using assms by simp
  also have "\<dots> \<le> t * t" by (rule mult_mono) (use a t assms in simp_all)
  finally show "0 \<le> t \<and> x \<le> t * t" using t by simp
next
  assume b: "0 \<le> t \<and> x \<le> t * t"
  then have "sqrt x \<le> sqrt (t * t)" by (intro real_sqrt_le_mono) simp
  also have "\<dots> = t" using b by simp
  finally show "sqrt x \<le> t" .
qed

subsection \<open>Small buffers and a fill colour, for the concrete runs\<close>

definition white1 :: ImageData where
  "white1 = \<lparr>width = 1, height = 1, data = [255, 255, 255, 255]\<rparr>"

definition red :: "int Color" where
  "red = \<lparr>c_r = 255, c_g = 0, c_b = 0, c_a = 255\<rparr>"

definition white2 :: ImageData where
  "white2 = \<lparr>width = 2, height = 1, data = [255, 255, 255, 255, 255, 255, 255, 255]\<rparr>"

definition red2 :: ImageData where
  "red2 = \<lparr>width = 2, height = 1, data = [255, 0, 0, 255, 255, 0, 0, 255]\<rparr>"

definition clear1 :: ImageData where
  "clear1 = \<lparr>width = 1, height = 1, data = [255, 0, 0, 7]\<rparr>"

definition whiteBlack :: ImageData where
  "whiteBlack = \<lparr>width = 2, height = 1, data = [255, 255, 255, 255, 0, 0, 0, 9]\<rparr>"

definition redBlack :: ImageData where
  "redBlack = \<lparr>width = 2, height = 1, data = [255, 0, 0, 255, 0, 0, 0, 9]\<rparr>"

lemma card_unfilled_le: "card (unfilled w h fc d) \<le> nat w * nat h"
proof -
  have "card (unfilled w h fc d) \<le> card ({0..<w} \<times> {0..<h})"
    by (rule card_mono) (auto simp: unfilled_def)
  then show ?thesis by (simp add: card_cartesian_product)
qed

lemma floodLoop_seed_out:
  assumes "x < 0 \<or> x \<ge> w \<or> y < 0 \<or> y \<ge> h"
  shows "floodLoop w h sc fc tol [(x, y)] d n = Some (d, n)"
proof -
  have "floodLoop w h sc fc tol [(x, y)] d n = floodLoop w h sc fc tol [] d n"
    using assms by (subst floodLoop.simps) simp
  also have "\<dots> = Some (d, n)" by (subst floodLoop.simps) simp
  finally show ?thesis .
qed

lemma floodLoop_seed_skip:
  assumes "\<not> isSimilarColor (readColor d ((y * w + x) * 4)) sc tol"
  shows "floodLoop w h sc fc tol [(x, y)] d n = Some (d, n)"
proof -
  have "floodLoop w h sc fc tol [(x, y)] d n = floodLoop w h sc fc tol [] d n"
    using assms by (subst floodLoop.simps) simp
  also have "\<dots> = Some (d, n)" by (subst floodLoop.simps) simp
  finally show ?thesis .
qed

lemma floodLoop_seed_fill:
  assumes "0 \<le> x" "x < w" "0 \<le> y" "y < h"
    and "isSimilarColor (readColor d ((y * w + x) * 4)) sc tol"
    and "\<not> sameRGB (readColor d ((y * w + x) * 4)) fc"
  shows "floodLoop w h sc fc tol [(x, y)] d n =
         floodLoop w h sc fc tol [(x, y - 1), (x, y + 1), (x - 1, y), (x + 1, y)]
           (writeColor d ((y * w + x) * 4) fc) (n + 1)"
  using assms by (subst floodLoop.simps) simp

subsection \<open>Termination\<close>

text \<open>
  Claim C5. For every finite buffer, every seed coordinate, every fill colour whose
  channels are bytes and every tolerance, \<open>floodFill\<close> returns: the loop is not the
  value \<open>None\<close>. Each overwrite turns one pixel of the buffer into the fill colour and
  that pixel is skipped from then on, so the number of changed pixels is at most the
  number of pixels of the buffer. (A fill colour with a channel outside 0..255 is clamped
  when it is stored and is never found again by the test against the fill colour; the
  claim is about colours as the data model has them.)
\<close>

theorem floodFill_terminates:
  assumes "validColor fillColor"
  shows "\<exists>imageData' n.
           floodFill imageData startX startY targetColor fillColor tolerance = Some (imageData', n) \<and>
           n \<le> nat (width imageData) * nat (height imageData)"
proof -
  let ?w = "width imageData" and ?h = "height imageData" and ?d = "data imageData"
  let ?sc = "readColor ?d ((startY * ?w + startX) * 4)"
  let ?I = "\<lambda>d n. n + card (unfilled ?w ?h fillColor d) \<le> card (unfilled ?w ?h fillColor ?d)"
  have "\<exists>d' n'. floodLoop ?w ?h ?sc fillColor tolerance [(startX, startY)] ?d 0 = Some (d', n') \<and> ?I d' n'"
  proof (rule floodLoop_rule[OF assms, where I = ?I])
    fix d n x y
    assume I: "?I d n" and xy: "0 \<le> x" "x < ?w" "0 \<le> y" "y < ?h"
      and sim: "isSimilarColor (readColor d ((y * ?w + x) * 4)) ?sc tolerance"
      and ns: "\<not> sameRGB (readColor d ((y * ?w + x) * 4)) fillColor"
    have "unfilled ?w ?h fillColor (writeColor d ((y * ?w + x) * 4) fillColor) \<subset> unfilled ?w ?h fillColor d"
      using assms xy sim ns by (rule unfilled_step)
    then have "card (unfilled ?w ?h fillColor (writeColor d ((y * ?w + x) * 4) fillColor))
                < card (unfilled ?w ?h fillColor d)"
      by (intro psubset_card_mono finite_unfilled)
    with I show "?I (writeColor d ((y * ?w + x) * 4) fillColor) (n + 1)" by linarith
  qed simp
  then obtain d' n' where
    run: "floodLoop ?w ?h ?sc fillColor tolerance [(startX, startY)] ?d 0 = Some (d', n')"
    and le: "n' \<le> card (unfilled ?w ?h fillColor ?d)" by auto
  have bound: "n' \<le> nat ?w * nat ?h"
    using le card_unfilled_le[of ?w ?h fillColor ?d] by linarith
  show ?thesis
  proof (cases "sameRGB ?sc fillColor")
    case True
    then show ?thesis by (simp add: floodFill_def Let_def)
  next
    case False
    then show ?thesis using run bound by (simp add: floodFill_def Let_def)
  qed
qed

theorem floodFill_terminates_witness:
  "validColor red \<and>
   (\<exists>imageData' n. floodFill white1 0 0 red red 10 = Some (imageData', n) \<and> n \<le> 1)"
proof -
  have v: "validColor red" by (simp add: validColor_def red_def)
  from floodFill_terminates[OF v, of white1 0 0 red 10] v show ?thesis
    by (simp add: white1_def)
qed

subsection \<open>The seed outside the buffer\<close>

text \<open>
  Claim C2 as stated says that a seed outside the buffer makes \<open>floodFill\<close> fail
  with InvalidSeed and never return a normal zero. The function has no failure value:
  on the one-pixel buffer, the seed \<open>(5, 7)\<close> lies outside and the call returns the
  buffer unchanged together with the count 0.
\<close>

theorem floodFill_seed_outside_counterexample:
  "\<not> inBounds white1 5 7 \<and> floodFill white1 5 7 red red 10 = Some (white1, 0)"
  by (simp add: inBounds_def floodFill_def white1_def red_def readColor_def rd_def sameRGB_def
      floodLoop.simps)

text \<open>
  Claim C2, amended. \<open>floodFill\<close> has no failure mode. A seed outside the buffer
  gives the normal result 0 and leaves the buffer unchanged: the seed is popped, fails the
  bounds check and the stack is empty. With a fill colour whose channels are bytes, every
  call, whatever the seed, returns a buffer and a changed-pixel count.
\<close>

theorem floodFill_never_fails:
  "(\<not> inBounds imageData startX startY \<longrightarrow>
      floodFill imageData startX startY targetColor fillColor tolerance = Some (imageData, 0)) \<and>
   (validColor fillColor \<longrightarrow>
      (\<exists>imageData' n. floodFill imageData startX startY targetColor fillColor tolerance
          = Some (imageData', n)))"
proof (intro conjI impI)
  let ?w = "width imageData" and ?h = "height imageData" and ?d = "data imageData"
  let ?sc = "readColor ?d ((startY * ?w + startX) * 4)"
  assume "\<not> inBounds imageData startX startY"
  then have "startX < 0 \<or> startX \<ge> ?w \<or> startY < 0 \<or> startY \<ge> ?h"
    by (auto simp: inBounds_def)
  then have "floodLoop ?w ?h ?sc fillColor tolerance [(startX, startY)] ?d 0 = Some (?d, 0)"
    by (rule floodLoop_seed_out)
  then show "floodFill imageData startX startY targetColor fillColor tolerance = Some (imageData, 0)"
    by (simp add: floodFill_def Let_def)
next
  let ?w = "width imageData" and ?h = "height imageData" and ?d = "data imageData"
  let ?sc = "readColor ?d ((startY * ?w + startX) * 4)"
  assume v: "validColor fillColor"
  have "\<exists>d' n'. floodLoop ?w ?h ?sc fillColor tolerance [(startX, startY)] ?d 0 = Some (d', n') \<and> True"
    by (rule floodLoop_rule[OF v, where I = "\<lambda>_ _. True"]) simp_all
  then show "\<exists>imageData' n. floodFill imageData startX startY targetColor fillColor tolerance
          = Some (imageData', n)"
    by (auto simp: floodFill_def Let_def)
qed

theorem floodFill_never_fails_witness:
  "\<not> inBounds white1 1 0 \<and> floodFill white1 1 0 red red 10 = Some (white1, 0) \<and>
   validColor red \<and> (\<exists>imageData' n. floodFill white1 0 0 red red 10 = Some (imageData', n))"
proof -
  have v: "validColor red" by (simp add: validColor_def red_def)
  have o: "\<not> inBounds white1 1 0" by (simp add: inBounds_def white1_def)
  from floodFill_never_fails[of white1 1 0 red red 10] o
  have "floodFill white1 1 0 red red 10 = Some (white1, 0)" by simp
  moreover from floodFill_never_fails[of white1 0 0 red red 10] v
  have "\<exists>imageData' n. floodFill white1 0 0 red red 10 = Some (imageData', n)" by simp
  ultimately show ?thesis using v o by simp
qed

subsection \<open>Idempotence\<close>

text \<open>
  Claim C6. For every buffer, seed, fill colour whose channels are bytes and tolerance,
  \<open>floodFill\<close> returns some buffer and count, and a second call on the returned
  buffer with the same seed, fill colour and tolerance returns that buffer unchanged
  with the count 0. (Proved for every seed, inside the buffer or not.)
\<close>

theorem floodFill_idempotent:
  assumes v: "validColor fillColor"
  shows "\<exists>imageData1 n1.
           floodFill imageData startX startY targetColor fillColor tolerance = Some (imageData1, n1) \<and>
           floodFill imageData1 startX startY targetColor fillColor tolerance = Some (imageData1, 0)"
proof -
  let ?w = "width imageData" and ?h = "height imageData" and ?d = "data imageData"
  let ?i = "(startY * ?w + startX) * 4"
  let ?sc = "readColor ?d ?i"
  show ?thesis
  proof (cases "sameRGB ?sc fillColor")
    case True
    then have "floodFill imageData startX startY targetColor fillColor tolerance = Some (imageData, 0)"
      by (simp add: floodFill_def Let_def)
    then show ?thesis by simp
  next
    case ns: False
    show ?thesis
    proof (cases "inBounds imageData startX startY \<and> isSimilarColor ?sc ?sc tolerance")
      case False
      then have "floodLoop ?w ?h ?sc fillColor tolerance [(startX, startY)] ?d 0 = Some (?d, 0)"
        by (auto simp: inBounds_def intro: floodLoop_seed_out floodLoop_seed_skip)
      with ns have "floodFill imageData startX startY targetColor fillColor tolerance = Some (imageData, 0)"
        by (simp add: floodFill_def Let_def)
      then show ?thesis by simp
    next
      case True
      let ?d1 = "writeColor ?d ?i fillColor"
      let ?I = "\<lambda>d (n::nat). sameRGB (readColor d ?i) fillColor"
      have xy: "0 \<le> startX" "startX < ?w" "0 \<le> startY" "startY < ?h"
        using True by (simp_all add: inBounds_def)
      have first: "floodLoop ?w ?h ?sc fillColor tolerance [(startX, startY)] ?d 0 =
          floodLoop ?w ?h ?sc fillColor tolerance
            [(startX, startY - 1), (startX, startY + 1), (startX - 1, startY), (startX + 1, startY)] ?d1 (0 + 1)"
        using xy True ns by (intro floodLoop_seed_fill) simp_all
      have reads: "c_r ?sc \<noteq> None" "c_g ?sc \<noteq> None" "c_b ?sc \<noteq> None"
        using True isSimilarColor_reads[of ?sc ?sc tolerance] by simp_all
      have init: "?I ?d1 (0 + 1)" using v reads by (rule sameRGB_writeColor_same)
      have "\<exists>d' n'. floodLoop ?w ?h ?sc fillColor tolerance
            [(startX, startY - 1), (startX, startY + 1), (startX - 1, startY), (startX + 1, startY)] ?d1 (0 + 1)
              = Some (d', n') \<and> ?I d' n'"
      proof (rule floodLoop_rule[OF v, where I = ?I])
        fix d :: "int list" and n :: nat and x y :: int
        assume "?I d n"
        with v show "?I (writeColor d ((y * ?w + x) * 4) fillColor) (n + 1)"
          by (rule sameRGB_writeColor_keep) (use index_same_or_apart in blast)
      qed (rule init)
      then obtain d' n' where
        run: "floodLoop ?w ?h ?sc fillColor tolerance [(startX, startY)] ?d 0 = Some (d', n')"
        and filled: "sameRGB (readColor d' ?i) fillColor"
        using first by auto
      let ?img1 = "imageData\<lparr>data := d'\<rparr>"
      have one: "floodFill imageData startX startY targetColor fillColor tolerance = Some (?img1, n')"
        using ns run by (simp add: floodFill_def Let_def)
      have two: "floodFill ?img1 startX startY targetColor fillColor tolerance = Some (?img1, 0)"
        using filled by (simp add: floodFill_def Let_def)
      from one two show ?thesis by blast
    qed
  qed
qed

lemma floodFill_white2: "floodFill white2 0 0 red red 10 = Some (red2, 2)"
  by (simp add: floodFill_def white2_def red2_def red_def readColor_def rd_def sameRGB_def floodLoop.simps
     isSimilarColor_def writeColor_def wr_def clamp8_def)

theorem floodFill_idempotent_witness:
  "validColor red \<and> floodFill white2 0 0 red red 10 = Some (red2, 2) \<and>
   floodFill red2 0 0 red red 10 = Some (red2, 0)"
proof -
  have v: "validColor red" by (simp add: validColor_def red_def)
  from floodFill_idempotent[OF v, of white2 0 0 red 10] obtain i1 n1 where
    "floodFill white2 0 0 red red 10 = Some (i1, n1)" "floodFill i1 0 0 red red 10 = Some (i1, 0)"
    by blast
  with floodFill_white2 v show ?thesis by simp
qed

subsection \<open>Only red, green and blue are compared\<close>

text \<open>
  Claim C10. If the red, green and blue bytes of the seed pixel equal those of the fill
  colour, the call returns 0 and the buffer unchanged, whatever the two alpha values are.
  And no call changes the alpha byte of a pixel only: with a fill colour whose channels
  are bytes, a pixel whose red, green and blue bytes are the same before and after the
  call has the same alpha byte before and after.
\<close>

theorem floodFill_compares_rgb_only:
  "(rd (data imageData) ((startY * width imageData + startX) * 4) = Some (c_r fillColor) \<and>
    rd (data imageData) ((startY * width imageData + startX) * 4 + 1) = Some (c_g fillColor) \<and>
    rd (data imageData) ((startY * width imageData + startX) * 4 + 2) = Some (c_b fillColor)
    \<longrightarrow> floodFill imageData startX startY targetColor fillColor tolerance = Some (imageData, 0)) \<and>
   (validColor fillColor \<and>
    floodFill imageData startX startY targetColor fillColor tolerance = Some (imageData', n) \<and>
    rd (data imageData') ((y * width imageData + x) * 4) = rd (data imageData) ((y * width imageData + x) * 4) \<and>
    rd (data imageData') ((y * width imageData + x) * 4 + 1) = rd (data imageData) ((y * width imageData + x) * 4 + 1) \<and>
    rd (data imageData') ((y * width imageData + x) * 4 + 2) = rd (data imageData) ((y * width imageData + x) * 4 + 2)
    \<longrightarrow> rd (data imageData') ((y * width imageData + x) * 4 + 3) = rd (data imageData) ((y * width imageData + x) * 4 + 3))"
proof (intro conjI impI)
  assume "rd (data imageData) ((startY * width imageData + startX) * 4) = Some (c_r fillColor) \<and>
    rd (data imageData) ((startY * width imageData + startX) * 4 + 1) = Some (c_g fillColor) \<and>
    rd (data imageData) ((startY * width imageData + startX) * 4 + 2) = Some (c_b fillColor)"
  then have "sameRGB (readColor (data imageData) ((startY * width imageData + startX) * 4)) fillColor"
    by (simp add: sameRGB_def readColor_def)
  then show "floodFill imageData startX startY targetColor fillColor tolerance = Some (imageData, 0)"
    by (simp add: floodFill_def Let_def)
next
  let ?w = "width imageData" and ?h = "height imageData" and ?d = "data imageData"
  let ?sc = "readColor ?d ((startY * ?w + startX) * 4)"
  let ?j = "(y * ?w + x) * 4"
  let ?I = "\<lambda>d (n::nat). \<forall>k. readColor d (k * 4) = readColor ?d (k * 4) \<or>
              (sameRGB (readColor d (k * 4)) fillColor \<and> \<not> sameRGB (readColor ?d (k * 4)) fillColor)"
  assume a: "validColor fillColor \<and>
    floodFill imageData startX startY targetColor fillColor tolerance = Some (imageData', n) \<and>
    rd (data imageData') ?j = rd ?d ?j \<and>
    rd (data imageData') (?j + 1) = rd ?d (?j + 1) \<and>
    rd (data imageData') (?j + 2) = rd ?d (?j + 2)"
  then have v: "validColor fillColor" by simp
  have "\<exists>d' n'. floodLoop ?w ?h ?sc fillColor tolerance [(startX, startY)] ?d 0 = Some (d', n') \<and> ?I d' n'"
  proof (rule floodLoop_rule[OF v, where I = ?I])
    fix d :: "int list" and n :: nat and x0 y0 :: int
    let ?i = "(y0 * ?w + x0) * 4"
    assume I: "?I d n"
      and sim: "isSimilarColor (readColor d ?i) ?sc tolerance"
      and ns: "\<not> sameRGB (readColor d ?i) fillColor"
    show "?I (writeColor d ?i fillColor) (n + 1)"
    proof
      fix k :: int
      from index_same_or_apart[of "y0 * ?w + x0" k]
      consider "?i = k * 4" | "k * 4 + 3 < ?i \<or> ?i + 3 < k * 4" by blast
      then show "readColor (writeColor d ?i fillColor) (k * 4) = readColor ?d (k * 4) \<or>
              (sameRGB (readColor (writeColor d ?i fillColor) (k * 4)) fillColor \<and>
               \<not> sameRGB (readColor ?d (k * 4)) fillColor)"
      proof cases
        case 1
        have "c_r (readColor d ?i) \<noteq> None" "c_g (readColor d ?i) \<noteq> None" "c_b (readColor d ?i) \<noteq> None"
          using isSimilarColor_reads[OF sim] by simp_all
        with v have "sameRGB (readColor (writeColor d ?i fillColor) ?i) fillColor"
          by (rule sameRGB_writeColor_same)
        moreover have "\<not> sameRGB (readColor ?d ?i) fillColor"
          using I[rule_format, of "y0 * ?w + x0"] ns by auto
        ultimately show ?thesis using 1 by simp
      next
        case 2
        then have "readColor (writeColor d ?i fillColor) (k * 4) = readColor d (k * 4)"
          by (rule readColor_writeColor_other)
        then show ?thesis using I[rule_format, of k] by simp
      qed
    qed
  qed simp
  then obtain d' n' where
    run: "floodLoop ?w ?h ?sc fillColor tolerance [(startX, startY)] ?d 0 = Some (d', n')"
    and inv: "?I d' n'" by blast
  have "data imageData' = ?d \<or> data imageData' = d'"
    using a run by (auto simp: floodFill_def Let_def split: if_splits)
  then show "rd (data imageData') (?j + 3) = rd ?d (?j + 3)"
  proof
    assume "data imageData' = ?d" then show ?thesis by simp
  next
    assume e: "data imageData' = d'"
    from inv[rule_format, of "y * ?w + x"]
    show ?thesis
    proof
      assume "readColor d' ?j = readColor ?d ?j"
      then show ?thesis using e by (simp add: readColor_def)
    next
      assume "sameRGB (readColor d' ?j) fillColor \<and> \<not> sameRGB (readColor ?d ?j) fillColor"
      then have False using a e by (simp add: sameRGB_def readColor_def)
      then show ?thesis ..
    qed
  qed
qed

lemma floodFill_whiteBlack: "floodFill whiteBlack 0 0 red red 10 = Some (redBlack, 1)"
  by (simp add: floodFill_def whiteBlack_def redBlack_def red_def readColor_def rd_def sameRGB_def
      floodLoop.simps isSimilarColor_def writeColor_def wr_def clamp8_def sqrt_le_iff_sq)

theorem floodFill_compares_rgb_only_witness:
  "rd (data clear1) 0 = Some (c_r red) \<and> rd (data clear1) 1 = Some (c_g red) \<and>
   rd (data clear1) 2 = Some (c_b red) \<and> rd (data clear1) 3 \<noteq> Some (c_a red) \<and>
   floodFill clear1 0 0 red red 10 = Some (clear1, 0) \<and>
   validColor red \<and> floodFill whiteBlack 0 0 red red 10 = Some (redBlack, 1) \<and>
   rd (data redBlack) 4 = rd (data whiteBlack) 4 \<and>
   rd (data redBlack) 5 = rd (data whiteBlack) 5 \<and>
   rd (data redBlack) 6 = rd (data whiteBlack) 6 \<and>
   rd (data redBlack) 7 = rd (data whiteBlack) 7"
proof -
  have v: "validColor red" by (simp add: validColor_def red_def)
  have seed: "rd (data clear1) 0 = Some (c_r red)" "rd (data clear1) 1 = Some (c_g red)"
    "rd (data clear1) 2 = Some (c_b red)" "rd (data clear1) 3 \<noteq> Some (c_a red)"
    by (simp_all add: clear1_def red_def rd_def)
  have w1: "width clear1 = 1" by (simp add: clear1_def)
  have w2: "width whiteBlack = 2" by (simp add: whiteBlack_def)
  from floodFill_compares_rgb_only[of clear1 0 0 red red 10 clear1 0 0 0] seed w1
  have 1: "floodFill clear1 0 0 red red 10 = Some (clear1, 0)" by simp
  have same: "rd (data redBlack) 4 = rd (data whiteBlack) 4"
    "rd (data redBlack) 5 = rd (data whiteBlack) 5" "rd (data redBlack) 6 = rd (data whiteBlack) 6"
    by (simp_all add: redBlack_def whiteBlack_def rd_def)
  from floodFill_compares_rgb_only[of whiteBlack 0 0 red red 10 redBlack 1 0 1] v
    floodFill_whiteBlack same w2
  have 2: "rd (data redBlack) 7 = rd (data whiteBlack) 7" by simp
  from seed 1 v floodFill_whiteBlack same 2 show ?thesis by simp
qed

section \<open>Colour classification (isBuildingColor, colorSimilarity)\<close>

record RGB =
  rgb_r :: int
  rgb_g :: int
  rgb_b :: int

record Palette =
  building :: "RGB list"
  boundary :: "RGB list"

datatype ColorType = Building | Boundary | NoMatch

text \<open>The table \<^verbatim>\<open>BUILDING_COLORS\<close> of the map page (three samples per class).\<close>

definition BUILDING_COLORS :: Palette where
  "BUILDING_COLORS =
     \<lparr>building =
        [\<lparr>rgb_r = 255, rgb_g = 230, rgb_b = 190\<rparr>,
         \<lparr>rgb_r = 254, rgb_g = 229, rgb_b = 189\<rparr>,
         \<lparr>rgb_r = 255, rgb_g = 231, rgb_b = 191\<rparr>],
      boundary =
        [\<lparr>rgb_r = 255, rgb_g = 178, rgb_b = 128\<rparr>,
         \<lparr>rgb_r = 255, rgb_g = 212, rgb_b = 169\<rparr>,
         \<lparr>rgb_r = 255, rgb_g = 135, rgb_b = 75\<rparr>]\<rparr>"

text \<open>The table of the same name of the flood-fill page (seven and six samples).\<close>

definition BUILDING_COLORS_floodFillPage :: Palette where
  "BUILDING_COLORS_floodFillPage =
     \<lparr>building =
        [\<lparr>rgb_r = 255, rgb_g = 230, rgb_b = 190\<rparr>,
         \<lparr>rgb_r = 254, rgb_g = 229, rgb_b = 189\<rparr>,
         \<lparr>rgb_r = 255, rgb_g = 231, rgb_b = 191\<rparr>,
         \<lparr>rgb_r = 255, rgb_g = 235, rgb_b = 205\<rparr>,
         \<lparr>rgb_r = 255, rgb_g = 225, rgb_b = 185\<rparr>,
         \<lparr>rgb_r = 255, rgb_g = 240, rgb_b = 210\<rparr>,
         \<lparr>rgb_r = 255, rgb_g = 220, rgb_b = 180\<rparr>],
      boundary =
        [\<lparr>rgb_r = 255, rgb_g = 178, rgb_b = 128\<rparr>,
         \<lparr>rgb_r = 255, rgb_g = 212, rgb_b = 169\<rparr>,
         \<lparr>rgb_r = 255, rgb_g = 135, rgb_b = 75\<rparr>,
         \<lparr>rgb_r = 255, rgb_g = 165, rgb_b = 115\<rparr>,
         \<lparr>rgb_r = 255, rgb_g = 190, rgb_b = 140\<rparr>,
         \<lparr>rgb_r = 255, rgb_g = 150, rgb_b = 100\<rparr>]\<rparr>"

definition colorSimilarity :: "RGB \<Rightarrow> RGB \<Rightarrow> int" where
  "colorSimilarity color1 color2 =
     \<bar>rgb_r color1 - rgb_r color2\<bar> + \<bar>rgb_g color1 - rgb_g color2\<bar> + \<bar>rgb_b color1 - rgb_b color2\<bar>"

text \<open>
  One \<^verbatim>\<open>for (const c of samples) if (colorSimilarity(color, c) <= tolerance) return ...\<close>
  loop: whether the loop returns.
\<close>

fun matchesSample :: "RGB \<Rightarrow> real \<Rightarrow> RGB list \<Rightarrow> bool" where
  "matchesSample color tolerance [] = False"
| "matchesSample color tolerance (sample # samples) =
     (if real_of_int (colorSimilarity color sample) \<le> tolerance then True
      else matchesSample color tolerance samples)"

text \<open>
  The body shared by the two copies of \<^verbatim>\<open>isBuildingColor\<close>; the argument
  \<open>tolerance\<close> is \<open>None\<close> when the caller leaves it out, and then 50 is used.
\<close>

definition classifyWith :: "Palette \<Rightarrow> int \<Rightarrow> int \<Rightarrow> int \<Rightarrow> real option \<Rightarrow> ColorType" where
  "classifyWith palette r g b tolerance =
     (let tol = (case tolerance of None \<Rightarrow> 50 | Some t \<Rightarrow> t);
          color = \<lparr>rgb_r = r, rgb_g = g, rgb_b = b\<rparr>
      in if matchesSample color tol (building palette) then Building
         else if matchesSample color tol (boundary palette) then Boundary
         else NoMatch)"

definition isBuildingColor :: "int \<Rightarrow> int \<Rightarrow> int \<Rightarrow> real option \<Rightarrow> ColorType" where
  "isBuildingColor = classifyWith BUILDING_COLORS"

definition isBuildingColor_floodFillPage :: "int \<Rightarrow> int \<Rightarrow> int \<Rightarrow> real option \<Rightarrow> ColorType" where
  "isBuildingColor_floodFillPage = classifyWith BUILDING_COLORS_floodFillPage"

section \<open>Pixel clustering (clusterPixels)\<close>

type_synonym pixel = "int \<times> int"

text \<open>
  The test \<^verbatim>\<open>Math.sqrt((c[0] - p[0]) ** 2 + (c[1] - p[1]) ** 2) <= maxDistance\<close>.
\<close>

definition withinDistance :: "pixel \<Rightarrow> pixel \<Rightarrow> real \<Rightarrow> bool" where
  "withinDistance current neighbor maxDistance =
     (sqrt (real_of_int ((fst current - fst neighbor)\<^sup>2 + (snd current - snd neighbor)\<^sup>2))
        \<le> maxDistance)"

text \<open>
  The inner loop \<^verbatim>\<open>while (queue.length > 0)\<close>: the queue is taken from the front
  and extended at the back. The set \<open>visited\<close> holds the pixels whose keys
  \<^verbatim>\<open>`${x},${y}`\<close> are in the JavaScript set (the key of a pixel determines it).
\<close>

function bfs :: "pixel list \<Rightarrow> real \<Rightarrow> pixel list \<Rightarrow> pixel set \<Rightarrow> pixel list \<Rightarrow> pixel set \<times> pixel list" where
  "bfs pixels maxDistance [] visited cluster = (visited, cluster)"
| "bfs pixels maxDistance (current # queue) visited cluster =
     (if current \<in> visited then bfs pixels maxDistance queue visited cluster
      else bfs pixels maxDistance
             (queue @ filter (\<lambda>neighbor. neighbor \<notin> insert current visited \<and>
                                  withinDistance current neighbor maxDistance) pixels)
             (insert current visited) (cluster @ [current]))"
  by pat_completeness auto
termination
proof (relation "(\<lambda>(pixels, maxDistance, queue, visited, cluster).
                    card ((set pixels \<union> set queue) - visited)) <*mlex*>
                 measure (\<lambda>(pixels, maxDistance, queue, visited, cluster). length queue)")
  show "wf ((\<lambda>(pixels, maxDistance, queue, visited, cluster).
                    card ((set pixels \<union> set queue) - visited)) <*mlex*>
                 measure (\<lambda>(pixels, maxDistance, queue, visited, cluster). length queue))"
    by (simp add: wf_mlex)
next
  fix pixels queue cluster :: "pixel list" and maxDistance :: real
    and current :: pixel and visited :: "pixel set"
  assume "current \<in> visited"
  then have "(set pixels \<union> set queue) - visited = (set pixels \<union> set (current # queue)) - visited"
    by auto
  then show "((pixels, maxDistance, queue, visited, cluster),
              (pixels, maxDistance, current # queue, visited, cluster))
        \<in> (\<lambda>(pixels, maxDistance, queue, visited, cluster).
                    card ((set pixels \<union> set queue) - visited)) <*mlex*>
                 measure (\<lambda>(pixels, maxDistance, queue, visited, cluster). length queue)"
    by (intro mlex_leq) simp_all
next
  fix pixels queue cluster :: "pixel list" and maxDistance :: real
    and current :: pixel and visited :: "pixel set"
  let ?q = "queue @ filter (\<lambda>neighbor. neighbor \<notin> insert current visited \<and>
                                  withinDistance current neighbor maxDistance) pixels"
  assume "current \<notin> visited"
  then have "(set pixels \<union> set ?q) - insert current visited
               \<subset> (set pixels \<union> set (current # queue)) - visited"
    by auto
  then have "card ((set pixels \<union> set ?q) - insert current visited)
               < card ((set pixels \<union> set (current # queue)) - visited)"
    by (intro psubset_card_mono) simp_all
  then show "((pixels, maxDistance, ?q, insert current visited, cluster @ [current]),
              (pixels, maxDistance, current # queue, visited, cluster))
        \<in> (\<lambda>(pixels, maxDistance, queue, visited, cluster).
                    card ((set pixels \<union> set queue) - visited)) <*mlex*>
                 measure (\<lambda>(pixels, maxDistance, queue, visited, cluster). length queue)"
    by (intro mlex_less) simp
qed

text \<open>The outer loop \<^verbatim>\<open>for (const pixel of pixels)\<close>.\<close>

fun clusterLoop :: "pixel list \<Rightarrow> real \<Rightarrow> pixel list \<Rightarrow> pixel set \<Rightarrow> pixel list list \<Rightarrow> pixel list list" where
  "clusterLoop pixels maxDistance [] visited clusters = clusters"
| "clusterLoop pixels maxDistance (pixel # rest) visited clusters =
     (if pixel \<in> visited then clusterLoop pixels maxDistance rest visited clusters
      else (case bfs pixels maxDistance [pixel] visited [] of
              (visited', cluster) \<Rightarrow>
                clusterLoop pixels maxDistance rest visited'
                  (if length cluster > 0 then clusters @ [cluster] else clusters)))"

definition clusterPixels :: "pixel list \<Rightarrow> real \<Rightarrow> pixel list list" where
  "clusterPixels pixels maxDistance = clusterLoop pixels maxDistance pixels {} []"

section \<open>Tile coordinates and building detection (detectBuildingsByColor)\<close>

text \<open>
  JavaScript numbers that hold latitudes, longitudes and tolerances are modelled by real
  numbers, so the arithmetic below is exact; pixel and tile indices, which the source
  obtains with \<^verbatim>\<open>Math.floor\<close>, are integers. The source fixes \<open>zoom\<close> at 18 in
  the detector (19 at one place of the flood-fill page); it is a parameter here.
  The forward transform is the code of lines 888-891 and 949-950, the inverse the body of
  the \<^verbatim>\<open>polygon.map\<close> callback of lines 1024-1033, which returns longitude first.
\<close>

definition geoToTile :: "real \<Rightarrow> real \<Rightarrow> nat \<Rightarrow> int \<times> int \<times> int \<times> int" where
  "geoToTile lat lon zoom =
     (let n = 2 ^ zoom;
          tileX = \<lfloor>(lon + 180) / 360 * n\<rfloor>;
          tileY = \<lfloor>(1 - ln (tan (lat * pi / 180) + 1 / cos (lat * pi / 180)) / pi) / 2 * n\<rfloor>;
          pixelX = \<lfloor>((lon + 180) / 360 * n - real_of_int tileX) * 256\<rfloor>;
          pixelY = \<lfloor>((1 - ln (tan (lat * pi / 180) + 1 / cos (lat * pi / 180)) / pi) / 2 * n
                      - real_of_int tileY) * 256\<rfloor>
      in (tileX, tileY, pixelX, pixelY))"

definition tileToGeo :: "int \<Rightarrow> int \<Rightarrow> int \<Rightarrow> int \<Rightarrow> nat \<Rightarrow> real \<times> real" where
  "tileToGeo tileX tileY x y zoom =
     (let n = 2 ^ zoom;
          pixelLon = real_of_int (tileX * 256 + x) / (n * 256) * 360 - 180;
          pixelLat = (180 / pi) * arctan (sinh (pi * (1 - 2 * real_of_int (tileY * 256 + y) / (n * 256))))
      in (pixelLon, pixelLat))"

record Bounds =
  minX :: int
  minY :: int
  maxX :: int
  maxY :: int

text \<open>
  \<^verbatim>\<open>calculateBounds\<close> starts from \<open>(Infinity, Infinity, -Infinity, -Infinity)\<close>
  and folds \<^verbatim>\<open>Math.min\<close> and \<^verbatim>\<open>Math.max\<close> over the pixels. On a pixel list that is
  not empty this is the fold started at the first pixel; on the empty list the infinite
  bounds remain, which is the result \<open>None\<close> here.
\<close>

fun calculateBounds :: "pixel list \<Rightarrow> Bounds option" where
  "calculateBounds [] = None"
| "calculateBounds ((x0, y0) # rest) =
     Some (fold (\<lambda>(x, y) bounds.
                   \<lparr>minX = min (minX bounds) x, minY = min (minY bounds) y,
                    maxX = max (maxX bounds) x, maxY = max (maxY bounds) y\<rparr>)
             rest \<lparr>minX = x0, minY = y0, maxX = x0, maxY = y0\<rparr>)"

definition boundsToPolygon :: "Bounds \<Rightarrow> pixel list" where
  "boundsToPolygon bounds =
     [(minX bounds, minY bounds), (maxX bounds, minY bounds), (maxX bounds, maxY bounds),
      (minX bounds, maxY bounds), (minX bounds, minY bounds)]"

text \<open>
  The body of the loop over the clusters, for one cluster that passed the size test: its
  bounding box, as a ring of geographic points. The detector reaches it with at least
  five pixels only, so the branch \<open>None\<close> is not taken there.
\<close>

definition clusterPolygon :: "nat \<Rightarrow> int \<Rightarrow> int \<Rightarrow> pixel list \<Rightarrow> (real \<times> real) list" where
  "clusterPolygon zoom tileX tileY cluster =
     (case calculateBounds cluster of
        None \<Rightarrow> []
      | Some bounds \<Rightarrow> map (\<lambda>(x, y). tileToGeo tileX tileY x y zoom) (boundsToPolygon bounds))"

text \<open>The loop \<^verbatim>\<open>for (const cluster of clusters)\<close> with its \<^verbatim>\<open>continue\<close>.\<close>

fun buildPolygons :: "nat \<Rightarrow> int \<Rightarrow> int \<Rightarrow> pixel list list \<Rightarrow> (real \<times> real) list list" where
  "buildPolygons zoom tileX tileY [] = []"
| "buildPolygons zoom tileX tileY (cluster # clusters) =
     (if length cluster < 5 then buildPolygons zoom tileX tileY clusters
      else clusterPolygon zoom tileX tileY cluster # buildPolygons zoom tileX tileY clusters)"

record BuildingFeature =
  f_id :: nat
  f_coordinates :: "(real \<times> real) list list"
  f_building :: string
  f_source :: string
  f_pixelCount :: nat

record BuildingGeoJSON =
  features :: "BuildingFeature list"

text \<open>
  The expression \<^verbatim>\<open>clusters[index]?.length || 0\<close>: an index past the end of the array
  yields \<^verbatim>\<open>undefined\<close>, hence 0.
\<close>

definition pixelCountAt :: "pixel list list \<Rightarrow> nat \<Rightarrow> nat" where
  "pixelCountAt clusters index = (if index < length clusters then length (clusters ! index) else 0)"

definition makeFeatures :: "pixel list list \<Rightarrow> (real \<times> real) list list \<Rightarrow> BuildingFeature list" where
  "makeFeatures clusters polygons =
     map (\<lambda>(index, coordinates).
            \<lparr>f_id = index + 1, f_coordinates = [coordinates], f_building = ''color_detected'',
             f_source = ''color_analysis'', f_pixelCount = pixelCountAt clusters index\<rparr>)
       (enumerate 0 polygons)"

text \<open>
  The scan of the tile, row by row. A read outside the buffer gives \<^verbatim>\<open>undefined\<close>,
  on which \<^verbatim>\<open>colorSimilarity\<close> computes NaN, so that no sample matches.
\<close>

definition colorTypeAt :: "ImageData \<Rightarrow> int \<Rightarrow> int \<Rightarrow> ColorType" where
  "colorTypeAt imageData x y =
     (let index = (y * width imageData + x) * 4 in
      case rd (data imageData) index of
        None \<Rightarrow> NoMatch
      | Some r \<Rightarrow>
          (case rd (data imageData) (index + 1) of
             None \<Rightarrow> NoMatch
           | Some g \<Rightarrow>
               (case rd (data imageData) (index + 2) of
                  None \<Rightarrow> NoMatch
                | Some b \<Rightarrow> isBuildingColor r g b None)))"

definition scanOrder :: "ImageData \<Rightarrow> pixel list" where
  "scanOrder imageData =
     concat (map (\<lambda>y. map (\<lambda>x. (x, y)) [0..width imageData - 1]) [0..height imageData - 1])"

definition buildingPixels :: "ImageData \<Rightarrow> pixel list" where
  "buildingPixels imageData = filter (\<lambda>(x, y). colorTypeAt imageData x y = Building) (scanOrder imageData)"

definition boundaryPixels :: "ImageData \<Rightarrow> pixel list" where
  "boundaryPixels imageData = filter (\<lambda>(x, y). colorTypeAt imageData x y = Boundary) (scanOrder imageData)"

definition nearbyBuildingPixels :: "ImageData \<Rightarrow> int \<Rightarrow> int \<Rightarrow> pixel list" where
  "nearbyBuildingPixels imageData pixelX pixelY =
     filter (\<lambda>(x, y). withinDistance (x, y) (pixelX, pixelY) 30) (buildingPixels imageData)"

definition detectedClusters :: "ImageData \<Rightarrow> int \<Rightarrow> int \<Rightarrow> pixel list list" where
  "detectedClusters imageData pixelX pixelY =
     clusterPixels (nearbyBuildingPixels imageData pixelX pixelY) 3"

text \<open>
  What the awaited steps deliver: the request for the tile fails (\<^verbatim>\<open>axios.get\<close>
  rejects), the bytes do not decode (\<^verbatim>\<open>img.onerror\<close>), the canvas gives no pixel data,
  or the pixels of the tile are there.
\<close>

datatype TileOutcome = FetchFailure | DecodeFailure | NoImageData | TileImage ImageData

text \<open>
  Whether the three colour bytes of the marker pixel can be read; on \<^verbatim>\<open>undefined\<close> the
  call \<^verbatim>\<open>markerR.toString(16)\<close> throws, and the \<^verbatim>\<open>catch\<close> returns null.
\<close>

definition markerReadable :: "ImageData \<Rightarrow> int \<Rightarrow> int \<Rightarrow> bool" where
  "markerReadable imageData pixelX pixelY =
     (let markerIndex = (pixelY * width imageData + pixelX) * 4 in
      rd (data imageData) markerIndex \<noteq> None \<and> rd (data imageData) (markerIndex + 1) \<noteq> None \<and>
      rd (data imageData) (markerIndex + 2) \<noteq> None)"

text \<open>
  The detector once the tile and pixel coordinates of the query point are computed.
  \<open>None\<close> is the result \<^verbatim>\<open>null\<close>, returned by the three \<^verbatim>\<open>return null\<close>
  statements and by the \<^verbatim>\<open>catch\<close> block alike.
\<close>

definition detectInTile ::
  "TileOutcome \<Rightarrow> nat \<Rightarrow> int \<Rightarrow> int \<Rightarrow> int \<Rightarrow> int \<Rightarrow> BuildingGeoJSON option" where
  "detectInTile outcome zoom tileX tileY pixelX pixelY =
     (case outcome of
        FetchFailure \<Rightarrow> None
      | DecodeFailure \<Rightarrow> None
      | NoImageData \<Rightarrow> None
      | TileImage imageData \<Rightarrow>
          if pixelX < 0 \<or> pixelX \<ge> width imageData \<or> pixelY < 0 \<or> pixelY \<ge> height imageData
          then None
          else if \<not> markerReadable imageData pixelX pixelY then None
          else if length (nearbyBuildingPixels imageData pixelX pixelY) = 0 then None
          else let clusters = detectedClusters imageData pixelX pixelY;
                   polygons = buildPolygons zoom tileX tileY clusters
               in Some \<lparr>features = makeFeatures clusters polygons\<rparr>)"

definition detectBuildingsByColor :: "real \<Rightarrow> real \<Rightarrow> TileOutcome \<Rightarrow> BuildingGeoJSON option" where
  "detectBuildingsByColor lat lon outcome =
     (case geoToTile lat lon 18 of
        (tileX, tileY, pixelX, pixelY) \<Rightarrow> detectInTile outcome 18 tileX tileY pixelX pixelY)"

section \<open>Properties of the classifier\<close>

lemma matchesSample_iff:
  "matchesSample color tolerance samples \<longleftrightarrow>
     (\<exists>s \<in> set samples. real_of_int (colorSimilarity color s) \<le> tolerance)"
  by (induction samples) auto

text \<open>
  Claim C7. \<open>isBuildingColor r g b tolerance\<close> is \<open>Building\<close> exactly when some
  sample of the building palette is within Manhattan distance (the sum of the absolute
  differences of red, green and blue) at most the tolerance of the input colour;
  otherwise it is \<open>Boundary\<close> exactly when some sample of the boundary palette is;
  otherwise it is \<open>NoMatch\<close> (the string \<^verbatim>\<open>'none'\<close>). The building palette is
  tested first, the tolerance is 50 when the caller gives none, and the function has no
  alpha argument. This holds for both copies of the function, each with its own table.
\<close>

theorem isBuildingColor_classifies:
  fixes r g b :: int and tolerance :: "real option"
  defines "tol \<equiv> (case tolerance of None \<Rightarrow> 50 | Some t \<Rightarrow> t)"
  defines "near \<equiv> \<lambda>s. real_of_int (\<bar>r - rgb_r s\<bar> + \<bar>g - rgb_g s\<bar> + \<bar>b - rgb_b s\<bar>) \<le> tol"
  shows "isBuildingColor r g b tolerance =
           (if \<exists>s \<in> set (building BUILDING_COLORS). near s then Building
            else if \<exists>s \<in> set (boundary BUILDING_COLORS). near s then Boundary
            else NoMatch) \<and>
         isBuildingColor_floodFillPage r g b tolerance =
           (if \<exists>s \<in> set (building BUILDING_COLORS_floodFillPage). near s then Building
            else if \<exists>s \<in> set (boundary BUILDING_COLORS_floodFillPage). near s then Boundary
            else NoMatch)"
  unfolding isBuildingColor_def isBuildingColor_floodFillPage_def classifyWith_def Let_def
    matchesSample_iff colorSimilarity_def tol_def near_def
  by simp

theorem isBuildingColor_classifies_witness:
  "isBuildingColor 255 230 190 None = Building \<and>
   isBuildingColor 255 178 128 (Some 10) = Boundary \<and>
   isBuildingColor 255 230 241 None = NoMatch \<and>
   isBuildingColor 255 230 241 (Some 51) = Building \<and>
   isBuildingColor_floodFillPage 255 240 210 (Some 0) = Building"
proof -
  note c = isBuildingColor_classifies
  show ?thesis
    using c[of 255 230 190 None] c[of 255 178 128 "Some 10"] c[of 255 230 241 None]
      c[of 255 230 241 "Some 51"] c[of 255 240 210 "Some 0"]
    by (simp add: BUILDING_COLORS_def BUILDING_COLORS_floodFillPage_def)
qed

section \<open>Properties of the clustering\<close>

lemma withinDistance_code:
  "withinDistance current neighbor maxDistance \<longleftrightarrow>
     0 \<le> maxDistance \<and>
     real_of_int ((fst current - fst neighbor)\<^sup>2 + (snd current - snd neighbor)\<^sup>2)
       \<le> maxDistance * maxDistance"
  unfolding withinDistance_def by (rule sqrt_le_iff_sq) simp

lemma bfs_spec:
  "set queue \<subseteq> set pixels \<Longrightarrow>
   \<exists>new. bfs pixels maxDistance queue visited cluster = (visited \<union> set new, cluster @ new) \<and>
         distinct new \<and> set new \<inter> visited = {} \<and> set new \<subseteq> set pixels \<and>
         set queue \<subseteq> visited \<union> set new"
proof (induction pixels maxDistance queue visited cluster rule: bfs.induct)
  case (1 pixels maxDistance visited cluster)
  show ?case by (rule exI[of _ "[]"]) simp
next
  case (2 pixels maxDistance current queue visited cluster)
  show ?case
  proof (cases "current \<in> visited")
    case True
    with 2 obtain new where
      "bfs pixels maxDistance queue visited cluster = (visited \<union> set new, cluster @ new)"
      "distinct new" "set new \<inter> visited = {}" "set new \<subseteq> set pixels"
      "set queue \<subseteq> visited \<union> set new" by auto
    with True show ?thesis by (intro exI[of _ new]) auto
  next
    case False
    let ?q = "queue @ filter (\<lambda>neighbor. neighbor \<notin> insert current visited \<and>
                                  withinDistance current neighbor maxDistance) pixels"
    have "set ?q \<subseteq> set pixels" using "2.prems" by auto
    from "2.IH"(2)[OF False this] obtain new where
      run: "bfs pixels maxDistance ?q (insert current visited) (cluster @ [current])
          = (insert current visited \<union> set new, (cluster @ [current]) @ new)"
      and d: "distinct new" and disj: "set new \<inter> insert current visited = {}"
      and sub: "set new \<subseteq> set pixels" and q: "set ?q \<subseteq> insert current visited \<union> set new"
      by auto
    show ?thesis
    proof (intro exI[of _ "current # new"] conjI)
      show "bfs pixels maxDistance (current # queue) visited cluster
          = (visited \<union> set (current # new), cluster @ current # new)"
        using False run by simp
      show "distinct (current # new)" using d disj by auto
      show "set (current # new) \<inter> visited = {}" using disj False by auto
      show "set (current # new) \<subseteq> set pixels" using sub "2.prems" by auto
      show "set (current # queue) \<subseteq> visited \<union> set (current # new)" using q by auto
    qed
  qed
qed

lemma clusterLoop_spec:
  assumes "set rest \<subseteq> set pixels" "visited = set (concat clusters)" "distinct (concat clusters)"
    "[] \<notin> set clusters" "visited \<subseteq> set pixels"
  shows "set rest \<union> visited \<subseteq> set (concat (clusterLoop pixels maxDistance rest visited clusters)) \<and>
         set (concat (clusterLoop pixels maxDistance rest visited clusters)) \<subseteq> set pixels \<and>
         distinct (concat (clusterLoop pixels maxDistance rest visited clusters)) \<and>
         [] \<notin> set (clusterLoop pixels maxDistance rest visited clusters)"
  using assms
proof (induction rest arbitrary: visited clusters)
  case Nil
  then show ?case by simp
next
  case (Cons pixel rest)
  show ?case
  proof (cases "pixel \<in> visited")
    case True
    with Cons.IH[of visited clusters] Cons.prems show ?thesis by auto
  next
    case False
    from bfs_spec[of "[pixel]" pixels maxDistance visited "[]"] Cons.prems(1)
    obtain new where
      run: "bfs pixels maxDistance [pixel] visited [] = (visited \<union> set new, new)"
      and d: "distinct new" and disj: "set new \<inter> visited = {}"
      and sub: "set new \<subseteq> set pixels" and q: "pixel \<in> visited \<union> set new"
      by auto
    have ne: "new \<noteq> []" using q False by auto
    let ?cs = "clusters @ [new]"
    have step: "clusterLoop pixels maxDistance (pixel # rest) visited clusters
        = clusterLoop pixels maxDistance rest (visited \<union> set new) ?cs"
      using False run ne by simp
    have "set rest \<union> (visited \<union> set new) \<subseteq> set (concat (clusterLoop pixels maxDistance rest (visited \<union> set new) ?cs)) \<and>
         set (concat (clusterLoop pixels maxDistance rest (visited \<union> set new) ?cs)) \<subseteq> set pixels \<and>
         distinct (concat (clusterLoop pixels maxDistance rest (visited \<union> set new) ?cs)) \<and>
         [] \<notin> set (clusterLoop pixels maxDistance rest (visited \<union> set new) ?cs)"
    proof (rule Cons.IH)
      show "set rest \<subseteq> set pixels" using Cons.prems(1) by simp
      show "visited \<union> set new = set (concat ?cs)" using Cons.prems(2) by simp
      show "distinct (concat ?cs)" using Cons.prems(2,3) d disj by auto
      show "[] \<notin> set ?cs" using Cons.prems(4) ne by simp
      show "visited \<union> set new \<subseteq> set pixels" using Cons.prems(5) sub by simp
    qed
    with step q show ?thesis by auto
  qed
qed

text \<open>
  Claim C4. For every list of pixel coordinates (with or without repetitions) and every
  \<open>maxDistance\<close>, the clusters returned by \<open>clusterPixels\<close> partition the input: their
  union is the set of input pixels, no pixel occurs twice in them (neither in two clusters
  nor twice in one), and no cluster is empty.
\<close>

theorem clusterPixels_partition:
  "set (concat (clusterPixels pixels maxDistance)) = set pixels \<and>
   distinct (concat (clusterPixels pixels maxDistance)) \<and>
   [] \<notin> set (clusterPixels pixels maxDistance)"
  using clusterLoop_spec[of pixels pixels "{}" "[]" maxDistance]
  unfolding clusterPixels_def by auto

lemma clusterPixels_example:
  "clusterPixels [(0, 0), (3, 0), (0, 0), (1, 1), (10, 10)] 3 = [[(0, 0), (3, 0), (1, 1)], [(10, 10)]]"
  by (simp add: clusterPixels_def withinDistance_code)

theorem clusterPixels_partition_witness:
  "clusterPixels [(0, 0), (3, 0), (0, 0), (1, 1), (10, 10)] 3 = [[(0, 0), (3, 0), (1, 1)], [(10, 10)]] \<and>
   set (concat [[(0, 0), (3, 0), (1, 1)], [(10, 10)]]) = set [(0, 0), (3, 0), (0, 0), (1, 1), (10 :: int, 10 :: int)] \<and>
   distinct (concat [[(0, 0), (3, 0), (1, 1)], [(10 :: int, 10 :: int)]])"
  using clusterPixels_partition[of "[(0, 0), (3, 0), (0, 0), (1, 1), (10, 10)]" 3]
  by (simp add: clusterPixels_example)

section \<open>Properties of the detector\<close>

definition rowImage :: ImageData where
  "rowImage = \<lparr>width = 9, height = 1, data =
     [255, 230, 190, 255,  255, 255, 255, 255,  255, 255, 255, 255,  255, 255, 255, 255,
      255, 230, 190, 255,  255, 230, 190, 255,  255, 230, 190, 255,  255, 230, 190, 255,
      255, 230, 190, 255]\<rparr>"

definition buildingDot :: ImageData where
  "buildingDot = \<lparr>width = 1, height = 1, data = [255, 230, 190, 255]\<rparr>"

lemma buildPolygons_filter:
  "buildPolygons zoom tileX tileY clusters =
     map (clusterPolygon zoom tileX tileY) (filter (\<lambda>cluster. 5 \<le> length cluster) clusters)"
  by (induction clusters) (simp_all add: not_less)

lemma makeFeatures_coordinates:
  "map f_coordinates (makeFeatures clusters polygons) = map (\<lambda>p. [p]) polygons"
proof -
  have "map f_coordinates (makeFeatures clusters polygons)
      = map ((\<lambda>p. [p]) \<circ> snd) (enumerate 0 polygons)"
    by (simp add: makeFeatures_def case_prod_unfold comp_def)
  also have "\<dots> = map (\<lambda>p. [p]) (map snd (enumerate 0 polygons))"
    by (simp only: map_map)
  finally show ?thesis by (simp only: map_snd_enumerate)
qed

lemma makeFeatures_pixelCount:
  "map f_pixelCount (makeFeatures clusters polygons) = map (pixelCountAt clusters) [0..<length polygons]"
proof -
  have "map f_pixelCount (makeFeatures clusters polygons)
      = map (pixelCountAt clusters \<circ> fst) (enumerate 0 polygons)"
    by (simp add: makeFeatures_def case_prod_unfold comp_def)
  also have "\<dots> = map (pixelCountAt clusters) (map fst (enumerate 0 polygons))"
    by (simp only: map_map)
  finally show ?thesis by (simp only: map_fst_enumerate add_0)
qed

lemma buildingPixels_rowImage:
  "buildingPixels rowImage = [(0, 0), (4, 0), (5, 0), (6, 0), (7, 0), (8, 0)]"
  by (simp add: buildingPixels_def scanOrder_def rowImage_def colorTypeAt_def rd_def upto_rec1
      isBuildingColor_def classifyWith_def BUILDING_COLORS_def colorSimilarity_def)

lemma nearby_rowImage:
  "nearbyBuildingPixels rowImage 0 0 = [(0, 0), (4, 0), (5, 0), (6, 0), (7, 0), (8, 0)]"
  by (simp add: nearbyBuildingPixels_def buildingPixels_rowImage withinDistance_code)

lemma clusters_rowImage:
  "detectedClusters rowImage 0 0 = [[(0, 0)], [(4, 0), (5, 0), (6, 0), (7, 0), (8, 0)]]"
  by (simp add: detectedClusters_def nearby_rowImage clusterPixels_def withinDistance_code)

lemma geoToTile_origin: "geoToTile 0 0 18 = (131072, 131072, 0, 0)"
proof -
  have n: "(2::real) ^ (18::nat) = 262144" by simp
  have m: "ln (tan (0 * pi / 180) + 1 / cos (0 * pi / 180)) = 0" by simp
  have x: "\<lfloor>(0 + 180) / 360 * (262144::real)\<rfloor> = 131072" by simp
  have y: "\<lfloor>(1 - 0 / pi) / 2 * (262144::real)\<rfloor> = 131072" by simp
  have px: "\<lfloor>((0 + 180) / 360 * (262144::real) - real_of_int 131072) * 256\<rfloor> = 0" by simp
  have py: "\<lfloor>((1 - 0 / pi) / 2 * (262144::real) - real_of_int 131072) * 256\<rfloor> = 0" by simp
  show ?thesis
    unfolding geoToTile_def Let_def n m x y px py ..
qed

lemma geoToTile_midtile: "geoToTile 0 (45 / 65536) 18 = (131072, 131072, 128, 0)"
proof -
  have n: "(2::real) ^ (18::nat) = 262144" by simp
  have m: "ln (tan (0 * pi / 180) + 1 / cos (0 * pi / 180)) = 0" by simp
  have e: "(45 / 65536 + 180) / 360 * (262144::real) = 262145 / 2" by simp
  have x: "\<lfloor>262145 / (2::real)\<rfloor> = 131072" by (simp add: floor_eq_iff)
  have y: "\<lfloor>(1 - 0 / pi) / 2 * (262144::real)\<rfloor> = 131072" by simp
  have px: "\<lfloor>(262145 / (2::real) - real_of_int 131072) * 256\<rfloor> = 128" by simp
  have py: "\<lfloor>((1 - 0 / pi) / 2 * (262144::real) - real_of_int 131072) * 256\<rfloor> = 0" by simp
  show ?thesis
    unfolding geoToTile_def Let_def n m e x y px py ..
qed

lemma detectInTile_Some:
  assumes "detectInTile outcome zoom tileX tileY pixelX pixelY = Some result"
  shows "\<exists>imageData. outcome = TileImage imageData \<and>
           features result = makeFeatures (detectedClusters imageData pixelX pixelY)
              (buildPolygons zoom tileX tileY (detectedClusters imageData pixelX pixelY))"
  using assms
  by (cases outcome) (auto simp: detectInTile_def Let_def split: if_splits)

lemma detectInTile_None:
  "detectInTile outcome zoom tileX tileY pixelX pixelY = None \<longleftrightarrow>
     outcome = FetchFailure \<or> outcome = DecodeFailure \<or> outcome = NoImageData \<or>
     (\<exists>imageData. outcome = TileImage imageData \<and>
        (\<not> inBounds imageData pixelX pixelY \<or> \<not> markerReadable imageData pixelX pixelY \<or>
         nearbyBuildingPixels imageData pixelX pixelY = []))"
  by (cases outcome) (auto simp: detectInTile_def Let_def inBounds_def)

subsection \<open>The minimum cluster size\<close>

text \<open>
  Claim C9. A cluster with fewer than 5 member pixels never produces a polygon: whenever
  the detector returns a collection, its features are, in order, the bounding rings of
  exactly those clusters that have at least 5 pixels.
\<close>

theorem polygons_only_from_five_pixels:
  assumes "detectBuildingsByColor lat lon outcome = Some result"
  shows "\<exists>imageData tileX tileY pixelX pixelY.
           outcome = TileImage imageData \<and> geoToTile lat lon 18 = (tileX, tileY, pixelX, pixelY) \<and>
           map f_coordinates (features result) =
             map (\<lambda>cluster. [clusterPolygon 18 tileX tileY cluster])
               (filter (\<lambda>cluster. 5 \<le> length cluster) (detectedClusters imageData pixelX pixelY))"
proof -
  obtain tileX tileY pixelX pixelY where g: "geoToTile lat lon 18 = (tileX, tileY, pixelX, pixelY)"
    by (metis prod_cases4)
  with assms have "detectInTile outcome 18 tileX tileY pixelX pixelY = Some result"
    by (simp add: detectBuildingsByColor_def)
  from detectInTile_Some[OF this] obtain imageData where
    o: "outcome = TileImage imageData"
    and f: "features result = makeFeatures (detectedClusters imageData pixelX pixelY)
              (buildPolygons 18 tileX tileY (detectedClusters imageData pixelX pixelY))"
    by blast
  have "map f_coordinates (features result) =
             map (\<lambda>cluster. [clusterPolygon 18 tileX tileY cluster])
               (filter (\<lambda>cluster. 5 \<le> length cluster) (detectedClusters imageData pixelX pixelY))"
    by (simp add: f makeFeatures_coordinates buildPolygons_filter comp_def)
  with o g show ?thesis by blast
qed

lemma markerReadable_rowImage: "markerReadable rowImage 0 0"
  by (simp add: markerReadable_def rowImage_def rd_def)

lemma detect_rowImage:
  "detectBuildingsByColor 0 0 (TileImage rowImage) =
     Some \<lparr>features = makeFeatures [[(0, 0)], [(4, 0), (5, 0), (6, 0), (7, 0), (8, 0)]]
        (buildPolygons 18 131072 131072 [[(0, 0)], [(4, 0), (5, 0), (6, 0), (7, 0), (8, 0)]])\<rparr>"
proof -
  have "width rowImage = 9" "height rowImage = 1" by (simp_all add: rowImage_def)
  then show ?thesis
    by (simp add: detectBuildingsByColor_def geoToTile_origin detectInTile_def Let_def
        markerReadable_rowImage nearby_rowImage clusters_rowImage del: buildPolygons.simps)
qed

theorem polygons_only_from_five_pixels_witness:
  "\<exists>result. detectBuildingsByColor 0 0 (TileImage rowImage) = Some result \<and>
     map f_coordinates (features result) =
       [[clusterPolygon 18 131072 131072 [(4, 0), (5, 0), (6, 0), (7, 0), (8, 0)]]]"
proof -
  from detect_rowImage obtain result where
    r: "detectBuildingsByColor 0 0 (TileImage rowImage) = Some result" by blast
  from polygons_only_from_five_pixels[OF r] geoToTile_origin clusters_rowImage
  have "map f_coordinates (features result) =
       [[clusterPolygon 18 131072 131072 [(4, 0), (5, 0), (6, 0), (7, 0), (8, 0)]]]"
    by auto
  with r show ?thesis by (intro exI[of _ result]) simp
qed

subsection \<open>The pixel count of a feature\<close>

text \<open>
  Claim C1 says that each feature carries the size of the cluster it was converted from.
  The source indexes the array of all clusters with the index of the polygon, so a small
  cluster that comes before a surviving one shifts the counts. For the query point
  \<open>(0, 0)\<close> and a tile of one row whose building pixels are \<open>(0, 0)\<close> and
  \<open>(4, 0) .. (8, 0)\<close>, the clusters have 1 and 5 pixels, the only feature is the ring
  of the cluster of 5, and its \<open>pixelCount\<close> is 1.
\<close>

theorem pixelCount_of_wrong_cluster:
  "\<exists>result. detectBuildingsByColor 0 0 (TileImage rowImage) = Some result \<and>
     detectedClusters rowImage 0 0 = [[(0, 0)], [(4, 0), (5, 0), (6, 0), (7, 0), (8, 0)]] \<and>
     map f_coordinates (features result) =
       [[clusterPolygon 18 131072 131072 [(4, 0), (5, 0), (6, 0), (7, 0), (8, 0)]]] \<and>
     map f_pixelCount (features result) = [1]"
  by (simp add: detect_rowImage clusters_rowImage makeFeatures_coordinates makeFeatures_pixelCount
      pixelCountAt_def)

text \<open>
  In general the \<open>i\<close>-th feature carries the size of the \<open>i\<close>-th cluster of the
  unfiltered list, which is the cluster it was converted from only as long as no cluster
  of fewer than 5 pixels comes before it.
\<close>

lemma pixelCount_indexes_all_clusters:
  assumes "detectBuildingsByColor lat lon outcome = Some result"
  shows "\<exists>imageData tileX tileY pixelX pixelY.
           outcome = TileImage imageData \<and> geoToTile lat lon 18 = (tileX, tileY, pixelX, pixelY) \<and>
           map f_pixelCount (features result) =
             map (\<lambda>i. length (detectedClusters imageData pixelX pixelY ! i))
               [0..<length (filter (\<lambda>cluster. 5 \<le> length cluster)
                              (detectedClusters imageData pixelX pixelY))]"
proof -
  obtain tileX tileY pixelX pixelY where g: "geoToTile lat lon 18 = (tileX, tileY, pixelX, pixelY)"
    by (metis prod_cases4)
  with assms have "detectInTile outcome 18 tileX tileY pixelX pixelY = Some result"
    by (simp add: detectBuildingsByColor_def)
  from detectInTile_Some[OF this] obtain imageData where
    o: "outcome = TileImage imageData"
    and f: "features result = makeFeatures (detectedClusters imageData pixelX pixelY)
              (buildPolygons 18 tileX tileY (detectedClusters imageData pixelX pixelY))"
    by blast
  let ?cs = "detectedClusters imageData pixelX pixelY"
  let ?k = "length (filter (\<lambda>cluster. 5 \<le> length cluster) ?cs)"
  have k: "?k \<le> length ?cs" by (rule length_filter_le)
  have "map (pixelCountAt ?cs) [0..<?k] = map (\<lambda>i. length (?cs ! i)) [0..<?k]"
  proof (rule map_cong[OF refl])
    fix i assume "i \<in> set [0..<?k]"
    then have "i < ?k" by simp
    then have "i < length ?cs" using k by (rule less_le_trans)
    then show "pixelCountAt ?cs i = length (?cs ! i)" by (simp add: pixelCountAt_def)
  qed
  then have "map f_pixelCount (features result) = map (\<lambda>i. length (?cs ! i)) [0..<?k]"
    by (simp add: f makeFeatures_pixelCount buildPolygons_filter)
  with o g show ?thesis by blast
qed

subsection \<open>The results for the failure causes\<close>

lemma buildingPixels_white1: "buildingPixels white1 = []"
  by (simp add: buildingPixels_def scanOrder_def white1_def colorTypeAt_def rd_def
      isBuildingColor_def classifyWith_def BUILDING_COLORS_def colorSimilarity_def)

lemma buildingPixels_buildingDot: "buildingPixels buildingDot = [(0, 0)]"
  by (simp add: buildingPixels_def scanOrder_def buildingDot_def colorTypeAt_def rd_def
      isBuildingColor_def classifyWith_def BUILDING_COLORS_def colorSimilarity_def)

lemma nearby_white1: "nearbyBuildingPixels white1 0 0 = []"
  by (simp add: nearbyBuildingPixels_def buildingPixels_white1)

lemma nearby_buildingDot: "nearbyBuildingPixels buildingDot 0 0 = [(0, 0)]"
  by (simp add: nearbyBuildingPixels_def buildingPixels_buildingDot withinDistance_code)

lemma clusters_buildingDot: "detectedClusters buildingDot 0 0 = [[(0, 0)]]"
  by (simp add: detectedClusters_def nearby_buildingDot clusterPixels_def withinDistance_code)

lemma marker_white1: "inBounds white1 0 0" "markerReadable white1 0 0" "\<not> inBounds white1 128 0"
  by (simp_all add: inBounds_def markerReadable_def white1_def rd_def)

lemma marker_buildingDot: "inBounds buildingDot 0 0" "markerReadable buildingDot 0 0"
  by (simp_all add: inBounds_def markerReadable_def buildingDot_def rd_def)

text \<open>
  Claim C3 as stated says that two calls failing for different causes return results
  that can be told apart. A failed request, an undecodable image, a marker pixel outside
  the tile (the query point in the middle of a tile whose image is one pixel wide) and a
  tile without building pixels near the marker all return the same value, null.
\<close>

theorem detect_failures_share_null_counterexample:
  "detectBuildingsByColor 0 0 FetchFailure = None \<and>
   detectBuildingsByColor 0 0 DecodeFailure = None \<and>
   \<not> inBounds white1 128 0 \<and> geoToTile 0 (45 / 65536) 18 = (131072, 131072, 128, 0) \<and>
   detectBuildingsByColor 0 (45 / 65536) (TileImage white1) = None \<and>
   inBounds white1 0 0 \<and> geoToTile 0 0 18 = (131072, 131072, 0, 0) \<and>
   nearbyBuildingPixels white1 0 0 = [] \<and>
   detectBuildingsByColor 0 0 (TileImage white1) = None"
proof -
  have w: "width white1 = 1" "height white1 = 1" by (simp_all add: white1_def)
  have "detectBuildingsByColor 0 (45 / 65536) (TileImage white1) = None"
    by (simp add: detectBuildingsByColor_def geoToTile_midtile detectInTile_def w)
  moreover have "detectBuildingsByColor 0 0 (TileImage white1) = None"
    by (simp add: detectBuildingsByColor_def geoToTile_origin detectInTile_def w marker_white1 nearby_white1)
  moreover have "detectBuildingsByColor 0 0 FetchFailure = None"
    "detectBuildingsByColor 0 0 DecodeFailure = None"
    by (simp_all add: detectBuildingsByColor_def geoToTile_origin detectInTile_def)
  ultimately show ?thesis
    using marker_white1 geoToTile_midtile geoToTile_origin nearby_white1 by simp
qed

text \<open>
  Claim C3, amended. The detector has one failure value, null, and returns it for
  FetchFailure, DecodeFailure, missing pixel data, OutOfBounds (including a marker
  pixel that cannot be read) and NoCandidates alike, and for nothing else; these causes
  are told apart by the console log only. NoCluster is not a failure of the call: when
  there are building pixels near the marker and no cluster reaches 5 pixels, the result
  is a collection with no features.
\<close>

theorem detect_null_causes:
  "(detectBuildingsByColor lat lon outcome = None \<longleftrightarrow>
      outcome = FetchFailure \<or> outcome = DecodeFailure \<or> outcome = NoImageData \<or>
      (\<exists>imageData tileX tileY pixelX pixelY.
         outcome = TileImage imageData \<and> geoToTile lat lon 18 = (tileX, tileY, pixelX, pixelY) \<and>
         (\<not> inBounds imageData pixelX pixelY \<or> \<not> markerReadable imageData pixelX pixelY \<or>
          nearbyBuildingPixels imageData pixelX pixelY = []))) \<and>
   (outcome = TileImage imageData \<and> geoToTile lat lon 18 = (tileX, tileY, pixelX, pixelY) \<and>
    inBounds imageData pixelX pixelY \<and> markerReadable imageData pixelX pixelY \<and>
    nearbyBuildingPixels imageData pixelX pixelY \<noteq> [] \<and>
    filter (\<lambda>cluster. 5 \<le> length cluster) (detectedClusters imageData pixelX pixelY) = []
    \<longrightarrow> detectBuildingsByColor lat lon outcome = Some \<lparr>features = []\<rparr>)"
proof (intro conjI impI)
  obtain tx ty px py where g: "geoToTile lat lon 18 = (tx, ty, px, py)"
    by (metis prod_cases4)
  show "detectBuildingsByColor lat lon outcome = None \<longleftrightarrow>
      outcome = FetchFailure \<or> outcome = DecodeFailure \<or> outcome = NoImageData \<or>
      (\<exists>imageData tileX tileY pixelX pixelY.
         outcome = TileImage imageData \<and> geoToTile lat lon 18 = (tileX, tileY, pixelX, pixelY) \<and>
         (\<not> inBounds imageData pixelX pixelY \<or> \<not> markerReadable imageData pixelX pixelY \<or>
          nearbyBuildingPixels imageData pixelX pixelY = []))"
    by (simp add: detectBuildingsByColor_def g detectInTile_None)
next
  assume a: "outcome = TileImage imageData \<and> geoToTile lat lon 18 = (tileX, tileY, pixelX, pixelY) \<and>
    inBounds imageData pixelX pixelY \<and> markerReadable imageData pixelX pixelY \<and>
    nearbyBuildingPixels imageData pixelX pixelY \<noteq> [] \<and>
    filter (\<lambda>cluster. 5 \<le> length cluster) (detectedClusters imageData pixelX pixelY) = []"
  then have "buildPolygons 18 tileX tileY (detectedClusters imageData pixelX pixelY) = []"
    by (simp add: buildPolygons_filter)
  with a show "detectBuildingsByColor lat lon outcome = Some \<lparr>features = []\<rparr>"
    by (simp add: detectBuildingsByColor_def detectInTile_def Let_def inBounds_def makeFeatures_def)
qed

theorem detect_null_causes_witness:
  "detectBuildingsByColor 0 0 FetchFailure = None \<and>
   detectBuildingsByColor 0 0 (TileImage white1) = None \<and>
   detectBuildingsByColor 0 0 (TileImage buildingDot) = Some \<lparr>features = []\<rparr>"
proof -
  from detect_null_causes[of 0 0 FetchFailure]
  have 1: "detectBuildingsByColor 0 0 FetchFailure = None" by simp
  from detect_null_causes[of 0 0 "TileImage white1"] geoToTile_origin nearby_white1
  have 2: "detectBuildingsByColor 0 0 (TileImage white1) = None" by simp
  from detect_null_causes[of 0 0 "TileImage buildingDot" buildingDot 131072 131072 0 0]
    geoToTile_origin marker_buildingDot nearby_buildingDot clusters_buildingDot
  have 3: "detectBuildingsByColor 0 0 (TileImage buildingDot) = Some \<lparr>features = []\<rparr>" by simp
  from 1 2 3 show ?thesis by simp
qed

section \<open>The tile transform in exact arithmetic\<close>

text \<open>
  The source evaluates the two transforms in IEEE double precision, with the library
  functions \<^verbatim>\<open>Math.log\<close>, \<^verbatim>\<open>Math.tan\<close>, \<^verbatim>\<open>Math.cos\<close>, \<^verbatim>\<open>Math.atan\<close> and
  \<^verbatim>\<open>Math.sinh\<close>, whose results the language leaves to the implementation. The
  definitions \<open>geoToTile\<close> and \<open>tileToGeo\<close> are the same formulas over the real
  numbers. The lemmas of this section are about these formulas; they say nothing about
  rounding.
\<close>

lemma floor_tile_pixel:
  fixes u :: real
  shows "\<lfloor>u\<rfloor> * 256 + \<lfloor>(u - real_of_int \<lfloor>u\<rfloor>) * 256\<rfloor> = \<lfloor>u * 256\<rfloor>"
proof -
  have "(u - real_of_int \<lfloor>u\<rfloor>) * 256 = u * 256 - real_of_int (\<lfloor>u\<rfloor> * 256)"
    by (simp add: algebra_simps)
  then have "\<lfloor>(u - real_of_int \<lfloor>u\<rfloor>) * 256\<rfloor> = \<lfloor>u * 256\<rfloor> - \<lfloor>u\<rfloor> * 256"
    by (simp only: floor_diff_of_int)
  then show ?thesis by simp
qed

lemma gd_deriv:
  "((\<lambda>x. x - arctan (sinh x)) has_real_derivative (1 - 1 / cosh x)) (at x)"
proof -
  have "1 + (sinh x)\<^sup>2 = (cosh x)\<^sup>2" by (simp add: cosh_square_eq)
  then have "inverse (1 + (sinh x)\<^sup>2) * cosh x = inverse ((cosh x)\<^sup>2) * cosh x" by simp
  also have "\<dots> = 1 / cosh x" by (simp add: power2_eq_square field_simps)
  finally have e: "inverse (1 + (sinh x)\<^sup>2) * cosh x = 1 / cosh x" .
  show ?thesis
    by (rule derivative_eq_intros refl | simp add: e)+
qed

lemma gd_lipschitz_le:
  assumes "a \<le> b"
  shows "arctan (sinh b) - arctan (sinh a) \<le> b - a" "0 \<le> arctan (sinh b) - arctan (sinh a)"
proof -
  have "a - arctan (sinh a) \<le> b - arctan (sinh b)"
  proof (rule DERIV_nonneg_imp_nondecreasing[OF assms])
    fix x :: real
    have "1 / cosh x \<le> 1" using cosh_real_ge_1[of x] by simp
    then have "0 \<le> 1 - 1 / cosh x" by simp
    with gd_deriv[of x]
    show "\<exists>y. ((\<lambda>x. x - arctan (sinh x)) has_real_derivative y) (at x) \<and> 0 \<le> y" by blast
  qed
  then show "arctan (sinh b) - arctan (sinh a) \<le> b - a" by simp
  show "0 \<le> arctan (sinh b) - arctan (sinh a)" using assms by (simp add: arctan_le_iff)
qed

lemma gd_lipschitz: "\<bar>arctan (sinh a) - arctan (sinh b)\<bar> \<le> \<bar>a - b\<bar>"
proof (cases "a \<le> b")
  case True
  from gd_lipschitz_le[OF True] show ?thesis by linarith
next
  case False
  then have "b \<le> a" by simp
  from gd_lipschitz_le[OF this] show ?thesis by linarith
qed

lemma mercator_inverse:
  assumes "- (pi / 2) < p" "p < pi / 2"
  shows "arctan (sinh (ln (tan p + 1 / cos p))) = p"
proof -
  have c: "0 < cos p" using assms by (rule cos_gt_zero_pi)
  have s: "- 1 < sin p"
  proof (rule ccontr)
    assume "\<not> - 1 < sin p"
    with sin_ge_minus_one[of p] have "sin p = - 1" by linarith
    with sin_cos_squared_add[of p] have "(cos p)\<^sup>2 = 0" by simp
    with c show False by simp
  qed
  have t: "tan p + 1 / cos p = (sin p + 1) / cos p"
    using c by (simp add: tan_def field_simps)
  have pos: "0 < tan p + 1 / cos p" unfolding t using c s by simp
  have inv: "inverse (tan p + 1 / cos p) = (1 - sin p) / cos p"
  proof -
    have "(sin p + 1) * (1 - sin p) = (cos p)\<^sup>2"
      using sin_cos_squared_add[of p] by (simp add: algebra_simps power2_eq_square)
    then have "((sin p + 1) / cos p) * ((1 - sin p) / cos p) = 1"
      using c by (simp add: power2_eq_square)
    then show ?thesis unfolding t by (rule inverse_unique)
  qed
  have "sinh (ln (tan p + 1 / cos p)) = ((sin p + 1) / cos p - (1 - sin p) / cos p) / 2"
    using sinh_ln_real[OF pos] inv t by simp
  also have "\<dots> = tan p" using c by (simp add: tan_def field_simps)
  finally show ?thesis using assms by (simp add: arctan_tan)
qed

lemma frac_bounds:
  fixes w :: real
  shows "0 \<le> w - real_of_int \<lfloor>w\<rfloor>" "w - real_of_int \<lfloor>w\<rfloor> < 1"
  by linarith+

lemma scaled_frac_less:
  fixes f c x :: real
  assumes "0 \<le> f" "f < 1" "0 < c" "\<bar>x\<bar> \<le> f * c"
  shows "\<bar>x\<bar> < c"
proof -
  have "f * c < 1 * c" using assms(2,3) by (rule mult_strict_right_mono)
  with assms(4) show ?thesis by simp
qed

lemma lon_offset:
  fixes K w n :: real
  assumes "0 < n"
  shows "K / (n * 256) * 360 - 180 - (w / (n * 256) * 360 - 180) = - ((w - K) * (360 / (256 * n)))"
  using assms by (simp add: field_simps)

lemma lon_round_trip:
  fixes lon n :: real
  assumes n: "0 < n"
  defines "u \<equiv> (lon + 180) / 360 * n"
  shows "\<bar>real_of_int (\<lfloor>u\<rfloor> * 256 + \<lfloor>(u - real_of_int \<lfloor>u\<rfloor>) * 256\<rfloor>) / (n * 256) * 360 - 180 - lon\<bar>
           < 360 / (256 * n)"
proof -
  define K where "K = real_of_int \<lfloor>u * 256\<rfloor>"
  define f where "f = u * 256 - K"
  define c where "c = 360 / (256 * n)"
  have f: "0 \<le> f" "f < 1" unfolding f_def K_def by (rule frac_bounds)+
  have c: "0 < c" unfolding c_def using n by simp
  have lon: "lon = (u * 256) / (n * 256) * 360 - 180"
    using n by (simp add: u_def field_simps)
  have "K / (n * 256) * 360 - 180 - ((u * 256) / (n * 256) * 360 - 180) = - (f * c)"
    unfolding f_def c_def using n by (rule lon_offset)
  then have "K / (n * 256) * 360 - 180 - lon = - (f * c)"
    by (simp only: lon[symmetric])
  then have "\<bar>K / (n * 256) * 360 - 180 - lon\<bar> = \<bar>f * c\<bar>" by (simp only: abs_minus)
  also have "\<dots> = f * c" using f c by (simp only: abs_of_nonneg mult_nonneg_nonneg less_imp_le)
  finally have "\<bar>K / (n * 256) * 360 - 180 - lon\<bar> \<le> f * c" by simp
  with f c have "\<bar>K / (n * 256) * 360 - 180 - lon\<bar> < c" by (rule scaled_frac_less)
  then show ?thesis by (simp only: floor_tile_pixel K_def c_def)
qed

lemma lat_offset:
  fixes K w n :: real
  assumes "0 < n"
  shows "pi * (1 - 2 * K / (n * 256)) - pi * (1 - 2 * w / (n * 256)) = (w - K) * (2 * pi / (256 * n))"
  using assms by (simp add: field_simps)

lemma mercator_row:
  fixes m n :: real
  assumes "0 < n"
  shows "m = pi * (1 - 2 * ((1 - m / pi) / 2 * n * 256) / (n * 256))"
  using assms pi_gt_zero by (simp add: field_simps)

lemma lat_round_trip:
  fixes lat n :: real
  assumes n: "0 < n" and lat: "\<bar>lat\<bar> < 90"
  defines "m \<equiv> ln (tan (lat * pi / 180) + 1 / cos (lat * pi / 180))"
  defines "v \<equiv> (1 - m / pi) / 2 * n"
  shows "\<bar>(180 / pi) * arctan (sinh (pi * (1 - 2 *
            real_of_int (\<lfloor>v\<rfloor> * 256 + \<lfloor>(v - real_of_int \<lfloor>v\<rfloor>) * 256\<rfloor>) / (n * 256)))) - lat\<bar>
           < 360 / (256 * n)"
proof -
  define p where "p = lat * pi / 180"
  define K where "K = real_of_int \<lfloor>v * 256\<rfloor>"
  define f where "f = v * 256 - K"
  define c where "c = 360 / (256 * n)"
  define y where "y = pi * (1 - 2 * K / (n * 256))"
  define G where "G = arctan (sinh y)"
  have f: "0 \<le> f" "f < 1" unfolding f_def K_def by (rule frac_bounds)+
  have c: "0 < c" unfolding c_def using n by simp
  have "- 90 < lat" "lat < 90" using lat by auto
  then have "pi * (- 90) < pi * lat" "pi * lat < pi * 90"
    using pi_gt_zero by (simp_all only: mult_strict_left_mono)
  moreover have "p = (pi * lat) / 180" by (simp add: p_def)
  ultimately have p: "- (pi / 2) < p" "p < pi / 2" by linarith+
  have gd: "arctan (sinh m) = p" unfolding m_def p_def[symmetric] using p by (rule mercator_inverse)
  have m: "m = pi * (1 - 2 * (v * 256) / (n * 256))"
    unfolding v_def using n by (rule mercator_row)
  have "y - pi * (1 - 2 * (v * 256) / (n * 256)) = f * (2 * pi / (256 * n))"
    unfolding y_def f_def using n by (rule lat_offset)
  then have "y - m = f * (2 * pi / (256 * n))" by (simp only: m[symmetric])
  moreover have "0 \<le> f * (2 * pi / (256 * n))" using f n pi_gt_zero by simp
  ultimately have d: "\<bar>y - m\<bar> = f * (2 * pi / (256 * n))" by (simp only: abs_of_nonneg)
  have k: "0 < 180 / pi" using pi_gt_zero by simp
  have latp: "lat = (180 / pi) * p" unfolding p_def using pi_gt_zero by simp
  have "(180 / pi) * G - (180 / pi) * p = (180 / pi) * (G - arctan (sinh m))"
    by (simp only: gd right_diff_distrib)
  then have "(180 / pi) * G - lat = (180 / pi) * (G - arctan (sinh m))"
    by (simp only: latp[symmetric])
  then have "\<bar>(180 / pi) * G - lat\<bar> = (180 / pi) * \<bar>G - arctan (sinh m)\<bar>"
    using k by (simp only: abs_mult abs_of_pos)
  also have "\<dots> \<le> (180 / pi) * \<bar>y - m\<bar>"
    unfolding G_def using k gd_lipschitz[of y m] by (intro mult_left_mono) simp_all
  also have "\<dots> = f * c"
    unfolding d c_def using pi_gt_zero n by (simp add: field_simps)
  finally have "\<bar>(180 / pi) * G - lat\<bar> \<le> f * c" .
  with f c have "\<bar>(180 / pi) * G - lat\<bar> < c" by (rule scaled_frac_less)
  then show ?thesis by (simp only: floor_tile_pixel K_def c_def G_def y_def)
qed

text \<open>
  In exact arithmetic the forward transform followed by the inverse moves a point by less
  than the angular width of a pixel, \<open>360 / (256 * 2 ^ zoom)\<close> degrees, in longitude
  and in latitude. The tile and pixel indices add up to the floor of the global pixel
  coordinate; the longitude is linear in that coordinate, and the latitude is a function
  of it whose slope is at most that of the longitude.
\<close>

lemma round_trip_exact_arithmetic:
  assumes "\<bar>lat\<bar> < 85.05" and "- 180 \<le> lon" and "lon \<le> 180"
  shows "case geoToTile lat lon zoom of
           (tileX, tileY, pixelX, pixelY) \<Rightarrow>
             (case tileToGeo tileX tileY pixelX pixelY zoom of
                (pixelLon, pixelLat) \<Rightarrow>
                  \<bar>pixelLon - lon\<bar> < 360 / (256 * 2 ^ zoom) \<and>
                  \<bar>pixelLat - lat\<bar> < 360 / (256 * 2 ^ zoom))"
proof -
  have n: "0 < (2::real) ^ zoom" by simp
  have lat: "\<bar>lat\<bar> < 90" using assms(1) by simp
  show ?thesis
    unfolding geoToTile_def tileToGeo_def Let_def prod.case
    using lon_round_trip[OF n, of lon] lat_round_trip[OF n lat]
    by simp
qed

end
